theory Spec2Isabelle
  imports Main "HOL-Library.Sublist" "HOL-Library.AList" "HOL-Library.Char_ord"
    "HOL-Library.List_Lexorder"
begin

section \<open>Python values, exceptions and strings\<close>

text \<open>
  The package \<open>pydantic_ai_sops\<close> is modelled as pure functions over an explicit
  environment (file system, YAML decoder, module loader). A Python call that can raise
  returns \<open>exn + 'a\<close>, with \<open>Inl\<close> the exception. Strings are lists of characters with
  code points below 256; \<open>len\<close> counts characters.
\<close>

datatype exn =
    SOPValidationError string
  | SOPResourceLoadError string
  | SOPNotFoundError string
  | YAMLError string
  | OSError string
  | UnicodeDecodeError
  | ValueError
  | RuntimeError string
  | TypeError
  | AttributeError
  | KeyError

definition bindE :: "exn + 'a \<Rightarrow> ('a \<Rightarrow> exn + 'b) \<Rightarrow> exn + 'b" where
  "bindE m f = (case m of Inl e \<Rightarrow> Inl e | Inr x \<Rightarrow> f x)"

text \<open>What \<open>yaml.safe_load\<close> can return (floats and dates are left out).\<close>

datatype yval =
    YNull
  | YBool bool
  | YInt int
  | YStr string
  | YSeq "yval list"
  | YMap "(yval \<times> yval) list"

text \<open>Python truthiness, as tested by \<open>if name:\<close> and \<open>if not name:\<close>.\<close>

fun truthy :: "yval \<Rightarrow> bool" where
  "truthy YNull = False"
| "truthy (YBool b) = b"
| "truthy (YInt i) = (i \<noteq> 0)"
| "truthy (YStr s) = (s \<noteq> [])"
| "truthy (YSeq xs) = (xs \<noteq> [])"
| "truthy (YMap kvs) = (kvs \<noteq> [])"

text \<open>\<open>len(v)\<close>: defined on strings, lists and dicts, a TypeError elsewhere.\<close>

fun py_len :: "yval \<Rightarrow> exn + nat" where
  "py_len (YStr s) = Inr (length s)"
| "py_len (YSeq xs) = Inr (length xs)"
| "py_len (YMap kvs) = Inr (length kvs)"
| "py_len v = Inl TypeError"

definition nl :: char where
  "nl = CHR 0x0A"

text \<open>
  The characters below 256 that Python counts as whitespace, for \<open>str.strip()\<close> and for
  \<open>\s\<close> in a \<open>str\<close> pattern: 9 to 13, 28 to 32, 133 and 160.
\<close>

definition is_space :: "char \<Rightarrow> bool" where
  "is_space c = ((of_char c :: nat) \<in> {9, 10, 11, 12, 13, 28, 29, 30, 31, 32, 133, 160})"

definition strip :: "string \<Rightarrow> string" where
  "strip s = rev (dropWhile is_space (rev (dropWhile is_space s)))"

text \<open>\<open>sub in s\<close> on strings: \<open>sub\<close> occurs as a contiguous run of \<open>s\<close>.\<close>

fun contains :: "string \<Rightarrow> string \<Rightarrow> bool" where
  "contains [] sub = (sub = [])"
| "contains (c # cs) sub = (take (length sub) (c # cs) = sub \<or> contains cs sub)"

text \<open>\<open>str(n)\<close> for a non-negative integer.\<close>

definition digit :: "nat \<Rightarrow> char" where
  "digit d = char_of (48 + d)"

fun show_nat :: "nat \<Rightarrow> string" where
  "show_nat n = (if n < 10 then [digit n] else show_nat (n div 10) @ [digit (n mod 10)])"

declare show_nat.simps [simp del]

definition quote :: char where
  "quote = CHR 0x27"

section \<open>Metadata validation\<close>

text \<open>
  \<open>SOP_NAME_PATTERN = re.compile(r'^[a-z0-9-]+$')\<close> and \<open>SOP_NAME_PATTERN.match(name)\<close>.
  Without \<open>re.MULTILINE\<close>, \<open>^\<close> is the start of the string, and \<open>$\<close> matches at the
  end of the string and also just before a newline that is the last character.
\<close>

definition name_char :: "char \<Rightarrow> bool" where
  "name_char c = ((CHR ''a'' \<le> c \<and> c \<le> CHR ''z'') \<or> (CHR ''0'' \<le> c \<and> c \<le> CHR ''9'')
     \<or> c = CHR ''-'')"

definition SOP_NAME_PATTERN_match :: "string \<Rightarrow> bool" where
  "SOP_NAME_PATTERN_match s =
     (let body = (if s \<noteq> [] \<and> last s = nl then butlast s else s)
      in body \<noteq> [] \<and> list_all name_char body)"

text \<open>
  \<open>RESERVED_WORDS\<close> is a Python set; the loop visits it in an order Python does not
  fix. The list gives one order; no statement below depends on it.
\<close>

definition RESERVED_WORDS :: "string list" where
  "RESERVED_WORDS = [''anthropic'', ''claude'']"

text \<open>\<open>reserved in name\<close>, for the values on which \<open>len(name)\<close> is defined.\<close>

fun py_in :: "string \<Rightarrow> yval \<Rightarrow> exn + bool" where
  "py_in r (YStr s) = Inr (contains s r)"
| "py_in r (YSeq xs) = Inr (YStr r \<in> set xs)"
| "py_in r (YMap kvs) = Inr (YStr r \<in> fst ` set kvs)"
| "py_in r v = Inl TypeError"

text \<open>
  \<open>f'{v}'\<close>: a string is inserted as it is; for any other value the text is Python's
  \<open>str(v)\<close>, a builtin that the model takes as the parameter \<open>str_of\<close> (the field \<open>py_str\<close> of the environment below).
\<close>

definition fmt :: "(yval \<Rightarrow> string) \<Rightarrow> yval \<Rightarrow> string" where
  "fmt str_of v = (case v of YStr s \<Rightarrow> s | _ \<Rightarrow> str_of v)"

definition dict_get :: "(yval \<times> yval) list \<Rightarrow> string \<Rightarrow> yval option" where
  "dict_get d k = map_of d (YStr k)"

definition name_too_long_warning :: "(yval \<Rightarrow> string) \<Rightarrow> yval \<Rightarrow> nat \<Rightarrow> string" where
  "name_too_long_warning str_of name n =
     ''SOP name '' @ [quote] @ fmt str_of name @ [quote] @ '' exceeds 64 characters (''
       @ show_nat n @ '' chars)''"

definition name_format_warning :: "(yval \<Rightarrow> string) \<Rightarrow> yval \<Rightarrow> string" where
  "name_format_warning str_of name =
     ''SOP name '' @ [quote] @ fmt str_of name @ [quote]
       @ '' should contain only lowercase letters, numbers, and hyphens''"

definition reserved_warning :: "(yval \<Rightarrow> string) \<Rightarrow> yval \<Rightarrow> string \<Rightarrow> string" where
  "reserved_warning str_of name reserved =
     ''SOP name '' @ [quote] @ fmt str_of name @ [quote] @ '' contains reserved word ''
       @ [quote] @ reserved @ [quote]"

definition description_warning :: "nat \<Rightarrow> string" where
  "description_warning n =
     ''SOP description exceeds 1024 characters ('' @ show_nat n @ '' chars)''"

definition body_warning :: "nat \<Rightarrow> string" where
  "body_warning n =
     ''SOP.md body exceeds recommended 500 lines ('' @ show_nat n @ '' lines). ''
       @ ''Consider splitting into separate resource files.''"

text \<open>\<open>SOP_NAME_PATTERN.match(name)\<close> raises TypeError unless \<open>name\<close> is a string.\<close>

fun pattern_match :: "yval \<Rightarrow> exn + bool" where
  "pattern_match (YStr s) = Inr (SOP_NAME_PATTERN_match s)"
| "pattern_match v = Inl TypeError"

text \<open>The loop \<open>for reserved in RESERVED_WORDS\<close>, appending to \<open>warnings_list\<close>.\<close>

fun reserved_loop :: "(yval \<Rightarrow> string) \<Rightarrow> yval \<Rightarrow> string list \<Rightarrow> string list
    \<Rightarrow> exn + string list" where
  "reserved_loop str_of name warnings_list [] = Inr warnings_list"
| "reserved_loop str_of name warnings_list (reserved # rest) =
     bindE (py_in reserved name) (\<lambda>b.
       reserved_loop str_of name
         (if b then warnings_list @ [reserved_warning str_of name reserved] else warnings_list)
         rest)"

text \<open>The block under \<open>if name:\<close>.\<close>

definition validate_name :: "(yval \<Rightarrow> string) \<Rightarrow> yval \<Rightarrow> exn + string list" where
  "validate_name str_of name =
     (if truthy name then
        bindE (py_len name) (\<lambda>n.
          bindE (if n > 64 then Inr [name_too_long_warning str_of name n]
                 else bindE (pattern_match name) (\<lambda>m.
                   Inr (if \<not> m then [name_format_warning str_of name] else [])))
            (\<lambda>warnings_list. reserved_loop str_of name warnings_list RESERVED_WORDS))
      else Inr [])"

definition validate_description :: "yval \<Rightarrow> exn + string list" where
  "validate_description description =
     (if truthy description then
        bindE (py_len description) (\<lambda>n. Inr (if n > 1024 then [description_warning n] else []))
      else Inr [])"

text \<open>\<open>len(instructions.split('\n'))\<close>: one more than the number of newlines.\<close>

definition count_lines :: "string \<Rightarrow> nat" where
  "count_lines instructions = Suc (length (filter (\<lambda>c. c = nl) instructions))"

definition validate_sop_metadata :: "(yval \<Rightarrow> string) \<Rightarrow> (yval \<times> yval) list \<Rightarrow> string
    \<Rightarrow> exn + string list" where
  "validate_sop_metadata str_of frontmatter instructions =
     (let name = (case dict_get frontmatter ''name'' of None \<Rightarrow> YStr [] | Some v \<Rightarrow> v);
          description = (case dict_get frontmatter ''description'' of None \<Rightarrow> YStr [] | Some v \<Rightarrow> v)
      in bindE (validate_name str_of name) (\<lambda>w1.
           bindE (validate_description description) (\<lambda>w2.
             Inr (w1 @ w2 @ (if count_lines instructions > 500
                             then [body_warning (count_lines instructions)] else [])))))"

section \<open>The environment\<close>

text \<open>
  A \<open>pathlib.Path\<close> is the list of its components; \<open>str(p)\<close> of an absolute POSIX
  path puts a slash before each.
\<close>

type_synonym path = "string list"

text \<open>
  What the package asks of Python and of the machine: the YAML decoder, the builtins
  \<open>str\<close> and \<open>repr\<close>, the file system behind \<open>pathlib\<close>, and the module loader of
  \<open>importlib\<close> (it returns the names of the tools of the module's \<open>sop_ts\<close>). The three
  globbing fields give the paths in the order the file system yields them.
\<close>

record env =
  yaml_safe_load :: "string \<Rightarrow> exn + yval"
  py_str :: "yval \<Rightarrow> string"
  py_repr :: "string \<Rightarrow> string"
  expanduser :: "path \<Rightarrow> exn + path"
  resolve :: "path \<Rightarrow> exn + path"
  path_exists :: "path \<Rightarrow> exn + bool"
  is_dir :: "path \<Rightarrow> exn + bool"
  is_file :: "path \<Rightarrow> exn + bool"
  glob_sop_md :: "path \<Rightarrow> path list"
  glob_md :: "path \<Rightarrow> path list"
  rglob_all :: "path \<Rightarrow> path list"
  read_text :: "path \<Rightarrow> exn + string"
  exec_module :: "path \<Rightarrow> exn + string list"

section \<open>The manifest parser\<close>

text \<open>
  \<open>re.search(r'^---\s*\n(.*?)^---\s*\n', content, re.DOTALL | re.MULTILINE)\<close>.

  \<open>^---\s*\n\<close> matches at a position that starts a line (the start of the text, or
  just after a newline), where the text reads \<open>---\<close> and the run of whitespace after it
  holds a newline; the greedy \<open>\s*\<close> leaves the last newline of that run to \<open>\n\<close>. The
  function gives the text after the match of these four items. For the opening
  delimiter the engine would also try the earlier newlines of the run, but only when
  no closing delimiter follows; a closing delimiter cannot start inside a run of
  whitespace, so those tries find none either.
\<close>

definition after_delim :: "string \<Rightarrow> string option" where
  "after_delim rest =
     (let run = takeWhile is_space rest
      in if nl \<in> set run
         then Some (drop (length run - length (takeWhile (\<lambda>c. c \<noteq> nl) (rev run))) rest)
         else None)"

definition delim_here :: "bool \<Rightarrow> string \<Rightarrow> string option" where
  "delim_here bol s = (if bol \<and> take 3 s = ''---'' then after_delim (drop 3 s) else None)"

text \<open>
  \<open>(.*?)^---\s*\n\<close> from a given position: the lazy group grows one character at a
  time until the closing delimiter matches. The result is the group and the text after
  the match; \<open>bol\<close> tells whether the position starts a line.
\<close>

fun find_delim :: "bool \<Rightarrow> string \<Rightarrow> (string \<times> string) option" where
  "find_delim bol [] = None"
| "find_delim bol (c # cs) =
     (case delim_here bol (c # cs) of
        Some r \<Rightarrow> Some ([], r)
      | None \<Rightarrow> map_option (\<lambda>(g, r). (c # g, r)) (find_delim (c = nl) cs))"

text \<open>The whole pattern at one position, and the search for the leftmost match.\<close>

definition match_at :: "bool \<Rightarrow> string \<Rightarrow> (string \<times> string) option" where
  "match_at bol s = (case delim_here bol s of None \<Rightarrow> None | Some r1 \<Rightarrow> find_delim True r1)"

fun search_from :: "bool \<Rightarrow> string \<Rightarrow> (string \<times> string) option" where
  "search_from bol [] = None"
| "search_from bol (c # cs) =
     (case match_at bol (c # cs) of
        Some m \<Rightarrow> Some m
      | None \<Rightarrow> search_from (c = nl) cs)"

text \<open>
  \<open>parse_sop_md\<close>. The first component of a match is \<open>match.group(1)\<close>, the second
  \<open>content[match.end():]\<close>. The empty dict is \<open>YMap []\<close>.
\<close>

definition parse_sop_md :: "env \<Rightarrow> string \<Rightarrow> exn + (yval \<times> string)" where
  "parse_sop_md E content =
     (case search_from True content of
        None \<Rightarrow> Inr (YMap [], strip content)
      | Some (group1, rest) \<Rightarrow>
          (let frontmatter_yaml = strip group1;
               instructions = strip rest
           in if frontmatter_yaml = [] then Inr (YMap [], instructions)
              else (case yaml_safe_load E frontmatter_yaml of
                      Inl (YAMLError msg) \<Rightarrow>
                        Inl (SOPValidationError (''Failed to parse YAML frontmatter: '' @ msg))
                    | Inl e \<Rightarrow> Inl e
                    | Inr frontmatter \<Rightarrow>
                        Inr (if frontmatter = YNull then YMap [] else frontmatter, instructions))))"

text \<open>
  For statements about documents: a delimiter line reads \<open>---\<close> and then whitespace
  only, and \<open>unlines\<close> ends each line with a newline.
\<close>

definition is_delim_line :: "string \<Rightarrow> bool" where
  "is_delim_line l = (take 3 l = ''---'' \<and> list_all is_space (drop 3 l))"

definition unlines :: "string list \<Rightarrow> string" where
  "unlines ls = concat (map (\<lambda>l. l @ [nl]) ls)"

section \<open>Paths\<close>

text \<open>\<open>p.name\<close>, \<open>p.parent\<close>, \<open>p.relative_to(other)\<close>, \<open>str(p)\<close>, \<open>sep.join(xs)\<close>.\<close>

definition path_name :: "path \<Rightarrow> string" where
  "path_name p = (if p = [] then [] else last p)"

definition parent :: "path \<Rightarrow> path" where
  "parent p = butlast p"

definition relative_to :: "path \<Rightarrow> path \<Rightarrow> exn + path" where
  "relative_to p other = (if prefix other p then Inr (drop (length other) p) else Inl ValueError)"

fun join :: "string \<Rightarrow> string list \<Rightarrow> string" where
  "join sep [] = []"
| "join sep [x] = x"
| "join sep (x # y # ys) = x @ sep @ join sep (y # ys)"

text \<open>An absolute path, and a relative one as \<open>relative_to\<close> returns it.\<close>

definition str_path :: "path \<Rightarrow> string" where
  "str_path p = ''/'' @ join ''/'' p"

definition str_rel :: "path \<Rightarrow> string" where
  "str_rel p = (if p = [] then ''.'' else join ''/'' p)"

text \<open>
  \<open>s.upper()\<close>, used for the comparison with \<open>SOP.MD\<close>. The model maps the
  letters a to z and leaves every other character as it is. Below 256 this does not
  change the comparison: apart from s, o, p, m and d, no character has its upper case in
  \<open>SOP.MD\<close>, but for the sharp s, whose upper case SS does not occur there.
\<close>

definition upper_char :: "char \<Rightarrow> char" where
  "upper_char c = (if CHR ''a'' \<le> c \<and> c \<le> CHR ''z'' then char_of (of_char c - (32::nat)) else c)"

definition py_upper :: "string \<Rightarrow> string" where
  "py_upper s = map upper_char s"

section \<open>The data classes\<close>

text \<open>The data classes of \<open>types.py\<close>. The fields declared \<open>str\<close> are strings.\<close>

record SOPMetadata =
  m_name :: string
  m_description :: string
  m_extra :: "(yval \<times> yval) list"

record SOPResource =
  r_name :: string
  r_path :: path
  r_content :: "string option"

record SOPScript =
  sc_name :: string
  sc_path :: path
  sc_sop_name :: string

text \<open>
  The class \<open>SOP\<close> has the fields \<open>name\<close>, \<open>path\<close>, \<open>metadata\<close>, \<open>content\<close>,
  \<open>resources\<close> and \<open>scripts\<close>. It has no field \<open>has_toolset\<close>.
\<close>

record SOP =
  s_name :: string
  s_path :: path
  s_metadata :: SOPMetadata
  s_content :: string
  s_resources :: "SOPResource list"
  s_scripts :: "SOPScript list"

section \<open>Resource resolution\<close>

text \<open>The first loop of \<open>_discover_resources\<close>, over \<open>sop_folder.glob('*.md')\<close>.\<close>

fun md_loop :: "env \<Rightarrow> SOPResource list \<Rightarrow> path list \<Rightarrow> exn + SOPResource list" where
  "md_loop E resources [] = Inr resources"
| "md_loop E resources (md_file # rest) =
     (if py_upper (path_name md_file) \<noteq> ''SOP.MD'' then
        bindE (resolve E md_file) (\<lambda>p.
          md_loop E
            (resources @ [\<lparr>r_name = path_name md_file, r_path = p, r_content = None\<rparr>]) rest)
      else md_loop E resources rest)"

text \<open>The second loop, over \<open>resources_dir.rglob('*')\<close>.\<close>

fun resources_loop :: "env \<Rightarrow> path \<Rightarrow> SOPResource list \<Rightarrow> path list
    \<Rightarrow> exn + SOPResource list" where
  "resources_loop E sop_folder resources [] = Inr resources"
| "resources_loop E sop_folder resources (resource_file # rest) =
     bindE (is_file E resource_file) (\<lambda>f.
       if f then
         bindE (relative_to resource_file sop_folder) (\<lambda>rel_path.
           bindE (resolve E resource_file) (\<lambda>p.
             resources_loop E sop_folder
               (resources @ [\<lparr>r_name = str_rel rel_path, r_path = p, r_content = None\<rparr>])
               rest))
       else resources_loop E sop_folder resources rest)"

definition discover_resources :: "env \<Rightarrow> path \<Rightarrow> exn + SOPResource list" where
  "discover_resources E sop_folder =
     bindE (md_loop E [] (glob_md E sop_folder)) (\<lambda>resources.
       let resources_dir = sop_folder @ [''resources'']
       in bindE (path_exists E resources_dir) (\<lambda>ex.
            bindE (if ex then is_dir E resources_dir else Inr False) (\<lambda>d.
              if d then resources_loop E sop_folder resources (rglob_all E resources_dir)
              else Inr resources)))"

text \<open>\<open>_check_toolset\<close>; the function does not use \<open>sop_name\<close>.\<close>

definition check_toolset :: "env \<Rightarrow> path \<Rightarrow> yval \<Rightarrow> exn + bool" where
  "check_toolset E sop_folder sop_name =
     bindE (path_exists E (sop_folder @ [''tools'', ''toolset.py''])) (\<lambda>ex.
       if ex then Inr True else Inr False)"

section \<open>Discovery\<close>

text \<open>
  The body of the \<open>try\<close> in \<open>discover_sops\<close>, for one \<open>SOP.md\<close>, in two parts.
  The first reads and decodes the manifest, takes the name and the description,
  collects the extra fields and applies the validation; it returns the values of the
  local variables that the second part passes on. \<open>Inr None\<close> is the \<open>continue\<close> of
  the validation. Building \<open>SOPMetadata\<close> raises nothing, whatever the values are.
  \<open>frontmatter.get\<close> raises AttributeError when the decoded front matter is no dict.
  The log calls are left out.
\<close>

record manifest =
  mf_name :: yval
  mf_description :: yval
  mf_extra :: "(yval \<times> yval) list"
  mf_instructions :: string

definition read_manifest :: "env \<Rightarrow> bool \<Rightarrow> path \<Rightarrow> exn + manifest option" where
  "read_manifest E validate sop_file =
     (let sop_folder = parent sop_file
      in bindE (read_text E sop_file) (\<lambda>content.
         bindE (parse_sop_md E content) (\<lambda>(frontmatter, instructions).
           case frontmatter of
             YMap fm \<Rightarrow>
               (let name = (case dict_get fm ''name'' of None \<Rightarrow> YNull | Some v \<Rightarrow> v);
                    description = (case dict_get fm ''description'' of None \<Rightarrow> YStr [] | Some v \<Rightarrow> v)
                in if validate \<and> \<not> truthy name then Inr None
                   else
                     (let name = (if \<not> truthy name then YStr (path_name sop_folder) else name);
                          extra = filter (\<lambda>(k, v). k \<noteq> YStr ''name'' \<and> k \<noteq> YStr ''description'') fm
                      in bindE (if validate then validate_sop_metadata (py_str E) fm instructions
                                else Inr []) (\<lambda>validation_warnings.
                           Inr (Some \<lparr>mf_name = name, mf_description = description,
                                  mf_extra = extra, mf_instructions = instructions\<rparr>))))
           | _ \<Rightarrow> Inl AttributeError)))"

text \<open>
  The call \<open>SOP(name=name, path=..., metadata=metadata, content=instructions,
  has_toolset=has_toolset, resources=resources)\<close> of \<open>discover_sops\<close>. The
  \<open>__init__\<close> that \<open>@dataclass\<close> generates for \<open>SOP\<close> has no parameter
  \<open>has_toolset\<close>, so the call raises \<open>TypeError\<close>, whatever the arguments are.
\<close>

definition SOP_with_has_toolset :: "yval \<Rightarrow> path \<Rightarrow> manifest \<Rightarrow> string \<Rightarrow> bool
    \<Rightarrow> SOPResource list \<Rightarrow> exn + SOP" where
  "SOP_with_has_toolset name p metadata content has_toolset resources = Inl TypeError"

text \<open>
  The second part resolves the resources, looks for the tool module, resolves the
  directory (an argument of the call) and calls the constructor.
\<close>

definition build_sop :: "env \<Rightarrow> path \<Rightarrow> manifest \<Rightarrow> exn + SOP" where
  "build_sop E sop_folder mf =
     bindE (discover_resources E sop_folder) (\<lambda>resources.
     bindE (check_toolset E sop_folder (mf_name mf)) (\<lambda>has_toolset.
     bindE (resolve E sop_folder) (\<lambda>p.
       SOP_with_has_toolset (mf_name mf) p mf (mf_instructions mf) has_toolset resources)))"

definition load_entry :: "env \<Rightarrow> bool \<Rightarrow> path \<Rightarrow> exn + SOP option" where
  "load_entry E validate sop_file =
     bindE (read_manifest E validate sop_file) (\<lambda>m.
       case m of
         None \<Rightarrow> Inr None
       | Some mf \<Rightarrow> bindE (build_sop E (parent sop_file) mf) (\<lambda>sop. Inr (Some sop)))"

text \<open>
  The loop over \<open>dir_path.glob('**/SOP.md')\<close> with the two handlers: a
  \<open>SOPValidationError\<close> is raised again, an \<open>OSError\<close> skips the entry, and any other
  exception leaves the function.
\<close>

fun discover_files :: "env \<Rightarrow> bool \<Rightarrow> SOP list \<Rightarrow> path list \<Rightarrow> exn + SOP list" where
  "discover_files E validate sops [] = Inr sops"
| "discover_files E validate sops (sop_file # rest) =
     (case load_entry E validate sop_file of
        Inr (Some sop) \<Rightarrow> discover_files E validate (sops @ [sop]) rest
      | Inr None \<Rightarrow> discover_files E validate sops rest
      | Inl (SOPValidationError msg) \<Rightarrow> Inl (SOPValidationError msg)
      | Inl (OSError msg) \<Rightarrow> discover_files E validate sops rest
      | Inl e \<Rightarrow> Inl e)"

text \<open>The loop over \<open>directories\<close>.\<close>

fun discover_dirs :: "env \<Rightarrow> bool \<Rightarrow> SOP list \<Rightarrow> path list \<Rightarrow> exn + SOP list" where
  "discover_dirs E validate sops [] = Inr sops"
| "discover_dirs E validate sops (sop_dir # rest) =
     bindE (expanduser E sop_dir) (\<lambda>home.
     bindE (resolve E home) (\<lambda>dir_path.
     bindE (path_exists E dir_path) (\<lambda>ex.
       if \<not> ex then discover_dirs E validate sops rest
       else bindE (is_dir E dir_path) (\<lambda>d.
         if \<not> d then discover_dirs E validate sops rest
         else bindE (discover_files E validate sops (glob_sop_md E dir_path)) (\<lambda>sops.
                discover_dirs E validate sops rest)))))"

definition discover_sops :: "env \<Rightarrow> path list \<Rightarrow> bool \<Rightarrow> exn + SOP list" where
  "discover_sops E directories validate = discover_dirs E validate [] directories"

section \<open>The path guard and the module loader\<close>

text \<open>
  \<open>_is_safe_path\<close>: \<open>target_path.resolve()\<close> is evaluated first, then
  \<open>base_path.resolve()\<close>, then \<open>relative_to\<close>; the handler catches \<open>ValueError\<close> only.
\<close>

definition is_safe_path :: "env \<Rightarrow> path \<Rightarrow> path \<Rightarrow> exn + bool" where
  "is_safe_path E base_path target_path =
     (case bindE (resolve E target_path) (\<lambda>t.
             bindE (resolve E base_path) (\<lambda>b. relative_to t b)) of
        Inr rel \<Rightarrow> Inr True
      | Inl ValueError \<Rightarrow> Inr False
      | Inl e \<Rightarrow> Inl e)"

text \<open>
  \<open>_import_toolset\<close> executes the module at the path and returns its \<open>sop_ts\<close>; the
  model keeps the names of the tools, \<open>sop_ts.tools.keys()\<close>.
\<close>

definition import_toolset :: "env \<Rightarrow> path \<Rightarrow> exn + string list" where
  "import_toolset E toolset_path = exec_module E toolset_path"

section \<open>The toolset\<close>

text \<open>
  The state of a \<open>SOPsToolset\<close>: \<open>_directories\<close>, \<open>_validate\<close> and the catalog
  \<open>_sops\<close>, a dict from names to procedures, kept as an association list in insertion
  order with one entry for each key.
\<close>

record SOPsToolset =
  t_directories :: "path list"
  t_validate :: bool
  t_sops :: "(string \<times> SOP) list"

text \<open>\<open>{sop.name: sop for sop in sops}\<close>: a later entry replaces an earlier one.\<close>

definition dict_of_sops :: "SOP list \<Rightarrow> (string \<times> SOP) list" where
  "dict_of_sops sops = foldl (\<lambda>d sop. AList.update (s_name sop) sop d) [] sops"

text \<open>
  \<open>_discover_sops\<close>, \<open>__init__\<close> and \<open>refresh\<close>. When discovery raises, the
  assignment to \<open>self._sops\<close> does not happen.
\<close>

definition discover_sops_method :: "env \<Rightarrow> SOPsToolset \<Rightarrow> exn + SOPsToolset" where
  "discover_sops_method E self =
     bindE (discover_sops E (t_directories self) (t_validate self)) (\<lambda>sops.
       Inr (self\<lparr>t_sops := dict_of_sops sops\<rparr>))"

definition init :: "env \<Rightarrow> path list \<Rightarrow> bool \<Rightarrow> bool \<Rightarrow> exn + SOPsToolset" where
  "init E directories auto_discover validate =
     (let self = \<lparr>t_directories = directories, t_validate = validate, t_sops = []\<rparr>
      in if auto_discover then discover_sops_method E self else Inr self)"

definition refresh :: "env \<Rightarrow> SOPsToolset \<Rightarrow> exn + SOPsToolset" where
  "refresh E self = discover_sops_method E self"

text \<open>
  What a tool does to the world outside the toolset, in the order it happens: a call
  of \<open>_is_safe_path\<close> on a base and a target with what it returned or raised, the
  execution of a module by \<open>_import_toolset\<close>, a \<open>read_text\<close> of a resource.
\<close>

datatype event =
    SafePathChecked path path "exn + bool"
  | ModuleExecuted path
  | TextRead path

text \<open>
  The run context: whether \<open>ctx.deps\<close> has the attribute \<open>state\<close>, and the value of
  \<open>ctx.deps.state.sop_toolset\<close>.
\<close>

record ctx =
  has_state :: bool
  sop_toolset :: "string list option"

definition get_toolset :: "env \<Rightarrow> SOPsToolset \<Rightarrow> string \<Rightarrow> event list \<times> (exn + string list)" where
  "get_toolset E self sop_name =
     (case map_of (t_sops self) sop_name of
        None \<Rightarrow> ([], Inl KeyError)
      | Some sop \<Rightarrow>
          (let toolset_path = s_path sop @ [''tools'', ''toolset.py'']
           in ([ModuleExecuted toolset_path], import_toolset E toolset_path)))"

definition list_sops :: "SOPsToolset \<Rightarrow> string" where
  "list_sops self =
     (if t_sops self = [] then ''No SOPs available.''
      else join [nl]
        ([''# Available SOPs'', []] @
         map (\<lambda>(name, sop). name @ '': '' @ m_description (s_metadata sop))
           (sort_key fst (t_sops self))))"

text \<open>
  The attribute read \<open>sop.has_toolset\<close> of \<open>activate_sop\<close>: an object of the class
  \<open>SOP\<close> has no such attribute, and the read raises \<open>AttributeError\<close>.
\<close>

definition sop_has_toolset :: "SOP \<Rightarrow> exn + bool" where
  "sop_has_toolset sop = Inl AttributeError"

text \<open>The lines of \<open>activate_sop\<close> after the tools: resources, rule, instructions.\<close>

definition resource_lines :: "SOP \<Rightarrow> string list" where
  "resource_lines sop =
     (if s_resources sop \<noteq> [] then
        [''**Available Resources:**''] @ map (\<lambda>resource. ''- '' @ r_name resource) (s_resources sop)
          @ [[]]
      else [])
     @ [''---'', [], s_content sop]"

definition activate_sop :: "env \<Rightarrow> SOPsToolset \<Rightarrow> ctx \<Rightarrow> string
    \<Rightarrow> event list \<times> (exn + string \<times> ctx)" where
  "activate_sop E self c sop_name =
     (case map_of (t_sops self) sop_name of
        None \<Rightarrow>
          (let joined = join '', '' (sort (map fst (t_sops self)));
               available = (if joined = [] then ''none'' else joined)
           in ([], Inr (''Error: SOP '' @ [quote] @ sop_name @ [quote]
                          @ '' not found. Available SOPs: '' @ available, c)))
      | Some sop \<Rightarrow>
          (let lines = [''# SOP: '' @ s_name sop,
                        ''**Description:** '' @ m_description (s_metadata sop),
                        ''**Path:** '' @ str_path (s_path sop),
                        []]
           in case sop_has_toolset sop of
                Inl e \<Rightarrow> ([], Inl e)
              | Inr True \<Rightarrow>
                  (case get_toolset E self sop_name of
                     (events, Inl e) \<Rightarrow> (events, Inl e)
                   | (events, Inr sop_ts) \<Rightarrow>
                       (events,
                        Inr (join [nl]
                               (lines @ [''**Available Tools:**'']
                                  @ map (\<lambda>tool. ''- '' @ tool) sop_ts @ [[]]
                                  @ resource_lines sop),
                             if has_state c then c\<lparr>sop_toolset := Some sop_ts\<rparr> else c)))
              | Inr False \<Rightarrow> ([], Inr (join [nl] (lines @ resource_lines sop), c))))"

text \<open>\<open>f'{available}'\<close> for a list of strings: the \<open>repr\<close> of each, in brackets.\<close>

definition repr_list :: "env \<Rightarrow> string list \<Rightarrow> string" where
  "repr_list E xs = ''['' @ join '', '' (map (py_repr E) xs) @ '']''"

definition read_sop_resource :: "env \<Rightarrow> SOPsToolset \<Rightarrow> string \<Rightarrow> string
    \<Rightarrow> event list \<times> (exn + string)" where
  "read_sop_resource E self sop_name resource_name =
     (case map_of (t_sops self) sop_name of
        None \<Rightarrow> ([], Inr (''Error: SOP '' @ [quote] @ sop_name @ [quote] @ '' not found.''))
      | Some sop \<Rightarrow>
          (case find (\<lambda>r. r_name r = resource_name) (s_resources sop) of
             None \<Rightarrow>
               ([], Inr (''Error: Resource '' @ [quote] @ resource_name @ [quote]
                          @ '' not found in SOP '' @ [quote] @ sop_name @ [quote] @ ''. ''
                          @ ''Available resources: ''
                          @ repr_list E (map r_name (s_resources sop))))
           | Some resource \<Rightarrow>
               (let checked = SafePathChecked (s_path sop) (r_path resource)
                                (is_safe_path E (s_path sop) (r_path resource))
                in case is_safe_path E (s_path sop) (r_path resource) of
                     Inl e \<Rightarrow> ([checked], Inl e)
                   | Inr False \<Rightarrow> ([checked], Inr ''Error: Resource path escapes SOP directory.'')
                   | Inr True \<Rightarrow>
                       ([checked, TextRead (r_path resource)],
                        (case read_text E (r_path resource) of
                           Inr content \<Rightarrow> Inr content
                         | Inl (OSError msg) \<Rightarrow>
                             Inl (SOPResourceLoadError (''Failed to read resource '' @ [quote]
                                    @ resource_name @ [quote] @ '': '' @ msg))
                         | Inl e \<Rightarrow> Inl e)))))"

text \<open>
  A call of a public operation on the toolset and the run context: what the call does
  to the world, what it returns or raises, and the toolset and the context after it.
  Each call has its own environment, since the file system changes between calls. Only
  \<open>refresh\<close> assigns \<open>_sops\<close>, and only when discovery returns; \<open>refresh\<close> returns
  \<open>None\<close>, here the empty text.
\<close>

datatype operation =
    ListSops
  | ActivateSop string
  | ReadSopResource string string
  | Refresh

fun call :: "env \<Rightarrow> operation \<Rightarrow> SOPsToolset \<times> ctx
    \<Rightarrow> event list \<times> (exn + string) \<times> (SOPsToolset \<times> ctx)" where
  "call E ListSops (self, c) = ([], Inr (list_sops self), (self, c))"
| "call E (ActivateSop sop_name) (self, c) =
     (case activate_sop E self c sop_name of
        (events, Inl e) \<Rightarrow> (events, Inl e, (self, c))
      | (events, Inr (text, c')) \<Rightarrow> (events, Inr text, (self, c')))"
| "call E (ReadSopResource sop_name resource_name) (self, c) =
     (case read_sop_resource E self sop_name resource_name of
        (events, r) \<Rightarrow> (events, r, (self, c)))"
| "call E Refresh (self, c) =
     (case refresh E self of
        Inl e \<Rightarrow> ([], Inl e, (self, c))
      | Inr self' \<Rightarrow> ([], Inr [], (self', c)))"

definition step :: "SOPsToolset \<times> ctx \<Rightarrow> env \<times> operation \<Rightarrow> SOPsToolset \<times> ctx" where
  "step st eo = snd (snd (call (fst eo) (snd eo) st))"

text \<open>
  Along a list of events, every execution of a module comes after a call of the path
  guard that returned true, on that module path and against the directory that holds
  it as \<open>tools/toolset.py\<close>; \<open>accepted\<close> holds the pairs of base and target that the
  guard has accepted so far.
\<close>

fun guarded_loads :: "(path \<times> path) list \<Rightarrow> event list \<Rightarrow> bool" where
  "guarded_loads accepted [] = True"
| "guarded_loads accepted (SafePathChecked base target r # events) =
     guarded_loads (if r = Inr True then (base, target) # accepted else accepted) events"
| "guarded_loads accepted (ModuleExecuted p # events) =
     (list_ex (\<lambda>(base, target). target = p \<and> base @ [''tools'', ''toolset.py''] = p) accepted
      \<and> guarded_loads accepted events)"
| "guarded_loads accepted (TextRead p # events) = guarded_loads accepted events"

text \<open>Every key of the catalog is the name of the procedure stored under it.\<close>

definition catalog_consistent :: "SOPsToolset \<Rightarrow> bool" where
  "catalog_consistent self = list_all (\<lambda>(k, sop). s_name sop = k) (t_sops self)"

section \<open>A small file system\<close>

text \<open>
  An environment over a table of regular files with their texts and a table of
  symbolic links: directories are the proper prefixes of the file paths, \<open>resolve\<close>
  follows a link, \<open>read_text\<close> of a missing file raises \<open>OSError\<close>, \<open>repr\<close> puts a
  string between quotes, and a module has the single tool \<open>lookup\<close>. The YAML decoder
  knows the front matters used below.
\<close>

definition demo_yaml :: "string \<Rightarrow> exn + yval" where
  "demo_yaml s =
     (if s = ''name: alpha'' @ [nl] @ ''description: First''
        then Inr (YMap [(YStr ''name'', YStr ''alpha''), (YStr ''description'', YStr ''First'')])
      else if s = ''name: gamma'' @ [nl] @ ''description: Third''
        then Inr (YMap [(YStr ''name'', YStr ''gamma''), (YStr ''description'', YStr ''Third'')])
      else if s = ''description: Second''
        then Inr (YMap [(YStr ''description'', YStr ''Second'')])
      else if s = ''description: Missing name field''
        then Inr (YMap [(YStr ''description'', YStr ''Missing name field'')])
      else if s = ''name: [a'' then Inl (YAMLError ''expected a flow sequence end'')
      else Inr YNull)"

definition has_suffix :: "string \<Rightarrow> string \<Rightarrow> bool" where
  "has_suffix suf s = (drop (length s - length suf) s = suf)"

definition demo_env :: "(path \<times> string) list \<Rightarrow> (path \<times> path) list \<Rightarrow> env" where
  "demo_env files links =
     \<lparr>yaml_safe_load = demo_yaml,
      py_str = (\<lambda>v. ''?''),
      py_repr = (\<lambda>s. [quote] @ s @ [quote]),
      expanduser = Inr,
      resolve = (\<lambda>p. case map_of links p of None \<Rightarrow> Inr p | Some t \<Rightarrow> Inr t),
      path_exists = (\<lambda>p. Inr (list_ex (\<lambda>f. prefix p f) (map fst files))),
      is_dir = (\<lambda>p. Inr (list_ex (\<lambda>f. strict_prefix p f) (map fst files))),
      is_file = (\<lambda>p. Inr (p \<in> set (map fst files))),
      glob_sop_md = (\<lambda>d. filter (\<lambda>f. strict_prefix d f \<and> path_name f = ''SOP.md'') (map fst files)),
      glob_md = (\<lambda>d. filter (\<lambda>f. parent f = d \<and> f \<noteq> [] \<and> has_suffix ''.md'' (path_name f))
                   (map fst files)),
      rglob_all = (\<lambda>d. filter (\<lambda>f. strict_prefix d f) (map fst files)),
      read_text = (\<lambda>p. case map_of files p of None \<Rightarrow> Inl (OSError ''No such file or directory'')
                        | Some text \<Rightarrow> Inr text),
      exec_module = (\<lambda>p. Inr [''lookup''])\<rparr>"

definition alpha_dir :: path where
  "alpha_dir = [''srv'', ''sops'', ''alpha'']"

definition alpha_md :: string where
  "alpha_md = ''---'' @ [nl] @ ''name: alpha'' @ [nl] @ ''description: First'' @ [nl] @ ''---''
     @ [nl] @ ''Do alpha.'' @ [nl]"

definition beta_dir :: path where
  "beta_dir = [''srv'', ''sops'', ''beta'']"

definition beta_md :: string where
  "beta_md = ''---'' @ [nl] @ ''description: Second'' @ [nl] @ ''---'' @ [nl] @ ''Do beta.'' @ [nl]"

definition gamma_dir :: path where
  "gamma_dir = [''srv'', ''sops'', ''gamma'']"

definition gamma_md :: string where
  "gamma_md = ''---'' @ [nl] @ ''name: gamma'' @ [nl] @ ''description: Third'' @ [nl] @ ''---''
     @ [nl] @ ''Do gamma.'' @ [nl]"

text \<open>A procedure with a name, a text and a directory, for examples.\<close>

definition demo_sop :: "string \<Rightarrow> string \<Rightarrow> path \<Rightarrow> SOP" where
  "demo_sop name text p =
     \<lparr>s_name = name, s_path = p,
      s_metadata = \<lparr>m_name = name, m_description = text, m_extra = []\<rparr>,
      s_content = text, s_resources = [], s_scripts = []\<rparr>"

definition demo_sops :: "SOP list" where
  "demo_sops = [demo_sop ''alpha'' ''one'' alpha_dir, demo_sop ''beta'' ''two'' beta_dir,
       demo_sop ''alpha'' ''three'' gamma_dir]"

text \<open>
  The files of the examples: the procedure \<open>alpha\<close> with a manifest, a document, a
  resource and a tool module, and the procedure directory \<open>beta\<close>, whose manifest has
  no name.
\<close>

definition demo_files :: "(path \<times> string) list" where
  "demo_files =
     [(alpha_dir @ [''SOP.md''], alpha_md),
      (alpha_dir @ [''FORMS.md''], ''# Forms''),
      (alpha_dir @ [''resources'', ''schema.json''], ''{}''),
      (alpha_dir @ [''tools'', ''toolset.py''], ''sop_ts = None''),
      (beta_dir @ [''SOP.md''], beta_md)]"

text \<open>
  The same files, where \<open>tools/toolset.py\<close> and \<open>FORMS.md\<close> of \<open>alpha\<close> are symbolic
  links to files outside the directory of the procedure.
\<close>

definition link_env :: env where
  "link_env = demo_env demo_files
     [(alpha_dir @ [''tools'', ''toolset.py''], [''tmp'', ''evil.py'']),
      (alpha_dir @ [''FORMS.md''], [''etc'', ''passwd''])]"

text \<open>
  A file system where \<open>/srv/loop\<close> is a symbolic link to itself: up to Python 3.12,
  \<open>Path.resolve()\<close> raises \<open>RuntimeError\<close> there.
\<close>

definition loop_env :: env where
  "loop_env = (demo_env [] [])\<lparr>resolve :=
     (\<lambda>p. if p = [''srv'', ''loop''] then Inl (RuntimeError ''Symlink loop from /srv/loop'')
          else Inr p)\<rparr>"

text \<open>A path with a null character: \<open>Path.resolve()\<close> raises \<open>ValueError\<close>.\<close>

definition null_env :: env where
  "null_env = (demo_env [] [])\<lparr>resolve :=
     (\<lambda>p. if p = [''srv'', [CHR 0x00]] then Inl ValueError else Inr p)\<rparr>"

text \<open>The run context of the examples: it has a state, and no tools are bound yet.\<close>

definition demo_ctx :: ctx where
  "demo_ctx = \<lparr>has_state = True, sop_toolset = None\<rparr>"

text \<open>A toolset whose catalog holds one procedure, \<open>alpha\<close>, with two resources.\<close>

definition one_toolset :: SOPsToolset where
  "one_toolset =
     \<lparr>t_directories = [[''srv'', ''sops'']], t_validate = True,
      t_sops = [(''alpha'', (demo_sop ''alpha'' ''one'' alpha_dir)
                  \<lparr>s_resources := [\<lparr>r_name = ''FORMS.md'', r_path = alpha_dir @ [''FORMS.md''],
                                       r_content = None\<rparr>,
                                    \<lparr>r_name = ''REFERENCE.md'',
                                       r_path = alpha_dir @ [''REFERENCE.md''],
                                       r_content = None\<rparr>]\<rparr>)]\<rparr>"

text \<open>
  A run for the examples, from a toolset whose catalog holds \<open>alpha\<close>: calls of the
  tools, a \<open>refresh\<close> over the files of \<open>demo_files\<close> with a further procedure
  \<open>gamma\<close>, and a \<open>refresh\<close> where the directory holds the procedure \<open>beta\<close> only,
  whose manifest has no name.
\<close>

definition grown_env :: env where
  "grown_env = demo_env (demo_files @ [(gamma_dir @ [''SOP.md''], gamma_md)]) []"

definition beta_env :: env where
  "beta_env = demo_env [(beta_dir @ [''SOP.md''], beta_md)] []"

definition demo_run :: "(env \<times> operation) list" where
  "demo_run =
     [(demo_env demo_files [], ListSops),
      (demo_env demo_files [], ActivateSop ''alpha''),
      (grown_env, Refresh),
      (grown_env, ReadSopResource ''alpha'' ''FORMS.md''),
      (grown_env, ActivateSop ''gamma''),
      (beta_env, Refresh),
      (beta_env, ListSops)]"

text \<open>
  For statements about the loop over the manifests: the exception is an \<open>OSError\<close>;
  loading the entry does not end the loop (the entry is appended or skipped).
\<close>

definition is_OSError :: "exn \<Rightarrow> bool" where
  "is_OSError e = (case e of OSError msg \<Rightarrow> True | _ \<Rightarrow> False)"

definition passes :: "env \<Rightarrow> bool \<Rightarrow> path \<Rightarrow> bool" where
  "passes E validate sop_file =
     (case load_entry E validate sop_file of Inl e \<Rightarrow> is_OSError e | Inr r \<Rightarrow> True)"

text \<open>
  File systems for the examples of discovery. The procedures \<open>beta\<close> and \<open>epsilon\<close>
  have manifests without a name. In \<open>bad_env\<close> the manifest of \<open>delta\<close>, between
  them, has a front matter that is not YAML. In \<open>unreadable_env\<close> the manifest of
  \<open>beta\<close> cannot be read: \<open>read_text\<close> raises \<open>PermissionError\<close>, an \<open>OSError\<close>. In
  \<open>garbled_env\<close> the manifest of \<open>epsilon\<close> is not UTF-8: \<open>read_text\<close> raises
  \<open>UnicodeDecodeError\<close>, a \<open>ValueError\<close>.
\<close>

definition epsilon_dir :: path where
  "epsilon_dir = [''srv'', ''sops'', ''epsilon'']"

definition epsilon_md :: string where
  "epsilon_md = ''---'' @ [nl] @ ''description: Second'' @ [nl] @ ''---'' @ [nl] @ ''Do epsilon.''
     @ [nl]"

definition nameless_files :: "(path \<times> string) list" where
  "nameless_files = [(beta_dir @ [''SOP.md''], beta_md), (epsilon_dir @ [''SOP.md''], epsilon_md)]"

definition delta_md :: string where
  "delta_md = ''---'' @ [nl] @ ''name: [a'' @ [nl] @ ''---'' @ [nl] @ ''Do delta.'' @ [nl]"

definition bad_env :: env where
  "bad_env = demo_env
     [(beta_dir @ [''SOP.md''], beta_md),
      ([''srv'', ''sops'', ''delta'', ''SOP.md''], delta_md),
      (epsilon_dir @ [''SOP.md''], epsilon_md)] []"

definition unreadable_env :: env where
  "unreadable_env = (demo_env nameless_files [])\<lparr>read_text :=
     (\<lambda>p. if p = beta_dir @ [''SOP.md''] then Inl (OSError ''Permission denied'')
          else read_text (demo_env nameless_files []) p)\<rparr>"

definition garbled_env :: env where
  "garbled_env = (demo_env nameless_files [])\<lparr>read_text :=
     (\<lambda>p. if p = epsilon_dir @ [''SOP.md''] then Inl UnicodeDecodeError
          else read_text (demo_env nameless_files []) p)\<rparr>"

text \<open>
  File systems for the examples of resource resolution, over the files of
  \<open>demo_files\<close>: \<open>alpha\<close> has a second resource in a directory that cannot be
  searched, so that \<open>is_file\<close> raises \<open>PermissionError\<close>, an \<open>OSError\<close>; or its
  document \<open>FORMS.md\<close> is a symbolic link to itself, so that \<open>resolve\<close> raises
  \<open>RuntimeError\<close>.
\<close>

definition more_files :: "(path \<times> string) list" where
  "more_files = demo_files @ [(alpha_dir @ [''resources'', ''locked'', ''b.txt''], ''b'')]"

definition locked_env :: env where
  "locked_env = (demo_env more_files [])\<lparr>is_file :=
     (\<lambda>p. if p = alpha_dir @ [''resources'', ''locked'', ''b.txt'']
          then Inl (OSError ''Permission denied'')
          else is_file (demo_env more_files []) p)\<rparr>"

definition looped_env :: env where
  "looped_env = (demo_env more_files [])\<lparr>resolve :=
     (\<lambda>p. if p = alpha_dir @ [''FORMS.md'']
          then Inl (RuntimeError ''Symlink loop from /srv/sops/alpha/FORMS.md'')
          else Inr p)\<rparr>"

text \<open>
  The directory of the tests \<open>test_discover_sops_missing_name_with_validation\<close> and
  \<open>test_discover_sops_missing_name_without_validation\<close>: one procedure directory
  \<open>test-sop\<close> whose manifest has a description and no name.
\<close>

definition tmp_path :: path where
  "tmp_path = [''tmp'', ''pytest-0'']"

definition test_sop_md :: string where
  "test_sop_md = ''---'' @ [nl] @ ''description: Missing name field'' @ [nl] @ ''---'' @ [nl]
     @ [nl] @ ''Content.'' @ [nl]"

definition test_env :: env where
  "test_env = demo_env [(tmp_path @ [''test-sop'', ''SOP.md''], test_sop_md)] []"

section \<open>Properties of the metadata validator\<close>

lemma reserved_loop_extends:
  "\<exists>more. reserved_loop str_of (YStr s) warnings_list rs = Inr (warnings_list @ more)"
proof (induction rs arbitrary: warnings_list)
  case Nil
  then show ?case by simp
next
  case (Cons r rs)
  from Cons.IH [of "warnings_list @ [reserved_warning str_of (YStr s) r]"]
  obtain more1 where m1: "reserved_loop str_of (YStr s)
      (warnings_list @ [reserved_warning str_of (YStr s) r]) rs
      = Inr (warnings_list @ [reserved_warning str_of (YStr s) r] @ more1)"
    by auto
  from Cons.IH [of warnings_list]
  obtain more2 where m2: "reserved_loop str_of (YStr s) warnings_list rs
      = Inr (warnings_list @ more2)"
    by auto
  show ?case
  proof (cases "contains s r")
    case True
    then show ?thesis using m1 by (simp add: bindE_def)
  next
    case False
    then show ?thesis using m2 by (simp add: bindE_def)
  qed
qed

text \<open>
  Where the pattern rejects a string name of at most 64 characters, the format warning
  is issued.
\<close>

lemma validate_name_rejected:
  assumes "s \<noteq> []" and "length s \<le> 64" and "\<not> SOP_NAME_PATTERN_match s"
  shows "\<exists>more. validate_name str_of (YStr s)
           = Inr (name_format_warning str_of (YStr s) # more)"
proof -
  obtain more where "reserved_loop str_of (YStr s) [name_format_warning str_of (YStr s)]
      RESERVED_WORDS = Inr ([name_format_warning str_of (YStr s)] @ more)"
    using reserved_loop_extends by blast
  then show ?thesis
    using assms by (simp add: validate_name_def bindE_def)
qed

text \<open>
  The pattern accepts a run of name characters followed by one newline, so the pattern
  and "only lowercase letters, digits and hyphens" differ exactly there.
\<close>

lemma SOP_NAME_PATTERN_match_iff:
  "SOP_NAME_PATTERN_match s \<longleftrightarrow>
     (s \<noteq> [] \<and> list_all name_char s) \<or>
     (\<exists>body. s = body @ [nl] \<and> body \<noteq> [] \<and> list_all name_char body)"
proof (cases "s \<noteq> [] \<and> last s = nl")
  case True
  then have l: "last s = nl" and ne: "s \<noteq> []" by simp_all
  have "s = butlast s @ [last s]" using ne by simp
  then have s: "s = butlast s @ [nl]" unfolding l .
  have nn: "\<not> name_char nl"
    by (simp add: name_char_def nl_def)
  have "\<not> list_all name_char s"
  proof
    assume "list_all name_char s"
    then have "list_all name_char (butlast s @ [nl])" using s by simp
    then show False using nn by simp
  qed
  moreover have "SOP_NAME_PATTERN_match s \<longleftrightarrow> butlast s \<noteq> [] \<and> list_all name_char (butlast s)"
    using True by (simp add: SOP_NAME_PATTERN_match_def Let_def)
  moreover have "(\<exists>body. s = body @ [nl] \<and> body \<noteq> [] \<and> list_all name_char body)
      \<longleftrightarrow> butlast s \<noteq> [] \<and> list_all name_char (butlast s)"
  proof
    assume "\<exists>body. s = body @ [nl] \<and> body \<noteq> [] \<and> list_all name_char body"
    then obtain body where b: "s = body @ [nl]" "body \<noteq> []" "list_all name_char body"
      by blast
    from b(1) have "butlast s = body" by simp
    then show "butlast s \<noteq> [] \<and> list_all name_char (butlast s)"
      using b(2,3) by simp
  next
    assume "butlast s \<noteq> [] \<and> list_all name_char (butlast s)"
    then show "\<exists>body. s = body @ [nl] \<and> body \<noteq> [] \<and> list_all name_char body"
      using s by blast
  qed
  ultimately show ?thesis
    by blast
next
  case False
  then have "SOP_NAME_PATTERN_match s \<longleftrightarrow> s \<noteq> [] \<and> list_all name_char s"
    by (auto simp: SOP_NAME_PATTERN_match_def Let_def)
  moreover have "\<not> (\<exists>body. s = body @ [nl])"
    using False by auto
  ultimately show ?thesis by blast
qed

text \<open>
  Claim C8. The claim: every identifier of at most 64 characters that does not consist
  solely of lowercase ASCII letters, digits and hyphens gets a format warning. The
  identifier \<open>abc\<close> followed by a newline (YAML \<open>name: "abc\n"\<close>) has four characters,
  one of them no name character, and the validator returns no warning at all: \<open>$\<close> in
  the pattern matches before the final newline.
\<close>

theorem validate_trailing_newline_no_warning:
  "length (''abc'' @ [nl]) \<le> 64 \<and> \<not> list_all name_char (''abc'' @ [nl]) \<and>
   validate_sop_metadata str_of [(YStr ''name'', YStr (''abc'' @ [nl]))] [] = Inr []"
  by (simp add: validate_sop_metadata_def dict_get_def validate_name_def validate_description_def
      bindE_def SOP_NAME_PATTERN_match_def name_char_def nl_def RESERVED_WORDS_def count_lines_def)

section \<open>Properties of the manifest parser\<close>

lemma is_space_nl: "is_space nl"
  by (simp add: is_space_def nl_def)

lemma not_space_dash: "\<not> is_space CHR ''-''"
  by (simp add: is_space_def)

lemma nl_not_dash: "nl \<noteq> CHR ''-''"
  by (simp add: nl_def)

lemma takeWhile_all: "\<forall>x \<in> set (takeWhile P xs). P x"
  by (induction xs) auto

lemma takeWhile_stop: "\<forall>x \<in> set xs. P x \<Longrightarrow> \<not> P y \<Longrightarrow> takeWhile P (xs @ y # ys) = xs"
  by (induction xs) auto

text \<open>What \<open>after_delim\<close> returns follows a newline that follows whitespace only.\<close>

lemma after_delim_Some:
  assumes "after_delim s = Some r"
  shows "\<exists>p. s = p @ [nl] @ r \<and> list_all is_space p"
proof -
  define run where "run = takeWhile is_space s"
  define d where "d = dropWhile is_space s"
  define k where "k = length run - length (takeWhile (\<lambda>c. c \<noteq> nl) (rev run))"
  from assms have nlrun: "nl \<in> set run" and r: "r = drop k s"
    by (auto simp: after_delim_def Let_def run_def k_def split: if_splits)
  from split_list_last [OF nlrun] obtain ys zs where
    run_eq: "run = ys @ nl # zs" and nz: "nl \<notin> set zs"
    by blast
  have "\<forall>x \<in> set (rev zs). x \<noteq> nl"
    using nz by auto
  then have "takeWhile (\<lambda>c. c \<noteq> nl) (rev zs @ nl # rev ys) = rev zs"
    by (rule takeWhile_stop) simp
  then have "takeWhile (\<lambda>c. c \<noteq> nl) (rev run) = rev zs"
    by (simp add: run_eq)
  then have k: "k = Suc (length ys)"
    by (simp add: k_def run_eq)
  have s_eq: "s = run @ d"
    by (simp add: run_def d_def)
  have r_eq: "r = zs @ d"
    by (simp add: r s_eq run_eq k)
  have "\<forall>x \<in> set run. is_space x"
    unfolding run_def by (rule takeWhile_all)
  then have sp: "list_all is_space ys"
    by (simp add: run_eq list_all_iff)
  have "s = ys @ [nl] @ r"
    by (simp add: s_eq run_eq r_eq)
  with sp show ?thesis by blast
qed

lemma after_delim_no_nl:
  assumes "nl \<notin> set w" "\<not> is_space c"
  shows "after_delim (w @ c # rest) = None"
proof -
  have "set (takeWhile is_space (w @ c # rest)) \<subseteq> set w"
  proof (cases "list_all is_space w")
    case True
    then have "takeWhile is_space (w @ c # rest) = w"
      using assms(2) by (simp add: list_all_iff)
    then show ?thesis by simp
  next
    case False
    then obtain x where "x \<in> set w" "\<not> is_space x" by (auto simp: list_all_iff)
    then have "takeWhile is_space (w @ c # rest) = takeWhile is_space w"
      by simp
    then show ?thesis using set_takeWhileD [of _ is_space w] by auto
  qed
  then show ?thesis using assms(1) by (auto simp: after_delim_def Let_def)
qed

lemma after_delim_end:
  assumes "nl \<notin> set w"
  shows "after_delim w = None"
proof -
  have "set (takeWhile is_space w) \<subseteq> set w"
    using set_takeWhileD [of _ is_space w] by auto
  then show ?thesis using assms by (auto simp: after_delim_def Let_def)
qed

lemma delim_here_not_dash: "c \<noteq> CHR ''-'' \<Longrightarrow> delim_here b (c # cs) = None"
  by (simp add: delim_here_def)

lemma delim_here_False: "delim_here False s = None"
  by (simp add: delim_here_def)

lemma find_delim_skip_nodash:
  "\<forall>c \<in> set q. c \<noteq> CHR ''-'' \<Longrightarrow>
   (find_delim b (q @ r) = None) = (find_delim (if q = [] then b else last q = nl) r = None)"
proof (induction q arbitrary: b)
  case Nil
  then show ?case by simp
next
  case (Cons c q)
  then have "delim_here b (c # q @ r) = None"
    by (simp add: delim_here_not_dash)
  then have "(find_delim b ((c # q) @ r) = None) = (find_delim (c = nl) (q @ r) = None)"
    by simp
  also have "\<dots> = (find_delim (if q = [] then c = nl else last q = nl) r = None)"
    using Cons by simp
  finally show ?case by simp
qed

lemma find_delim_dashes:
  "(find_delim False (''--'' @ x) = None) = (find_delim False x = None)"
  by (simp add: delim_here_False nl_def)

lemma find_delim_no_nl: "nl \<notin> set x \<Longrightarrow> find_delim False x = None"
  by (induction x) (auto simp: delim_here_False)

lemma find_delim_rest_of_line:
  "nl \<notin> set x \<Longrightarrow>
   find_delim False (x @ nl # rest) = map_option (\<lambda>(g, r). (x @ nl # g, r)) (find_delim True rest)"
proof (induction x)
  case Nil
  show ?case
    by (cases "find_delim True rest") (auto simp: delim_here_False)
next
  case (Cons c x)
  then show ?case
    by (cases "find_delim True rest") (auto simp: delim_here_False)
qed

lemma search_from_no_delim: "find_delim b s = None \<Longrightarrow> search_from b s = None"
proof (induction s arbitrary: b)
  case Nil
  then show ?case by simp
next
  case (Cons c cs)
  then have d: "delim_here b (c # cs) = None" and f: "find_delim (c = nl) cs = None"
    by (auto split: option.splits)
  from d have "match_at b (c # cs) = None" by (simp add: match_at_def)
  then show ?case using Cons.IH [OF f] by simp
qed

lemma space_no_dash: "list_all is_space p \<Longrightarrow> \<forall>c \<in> set (p @ [nl]). c \<noteq> CHR ''-''"
  using not_space_dash nl_not_dash by (auto simp: list_all_iff)

lemma search_from_one_delim:
  "find_delim b s = Some (g, r) \<Longrightarrow> find_delim True r = None \<Longrightarrow> search_from b s = None"
proof (induction s arbitrary: b g)
  case Nil
  then show ?case by simp
next
  case (Cons c cs)
  show ?case
  proof (cases "delim_here b (c # cs)")
    case None
    with Cons.prems(1) obtain g' where "find_delim (c = nl) cs = Some (g', r)"
      by auto
    then have "search_from (c = nl) cs = None"
      using Cons.IH Cons.prems(2) by blast
    moreover have "match_at b (c # cs) = None"
      using None by (simp add: match_at_def)
    ultimately show ?thesis by simp
  next
    case (Some r')
    with Cons.prems(1) have r: "r' = r" by simp
    then have m: "match_at b (c # cs) = None"
      using Some Cons.prems(2) by (simp add: match_at_def)
    from Some have t3: "take 3 (c # cs) = ''---''" and ad: "after_delim (drop 3 (c # cs)) = Some r"
      using r by (auto simp: delim_here_def split: if_splits)
    from after_delim_Some [OF ad] obtain p where
      p: "drop 3 (c # cs) = p @ [nl] @ r" "list_all is_space p" by blast
    have "c # cs = take 3 (c # cs) @ drop 3 (c # cs)"
      by (simp only: append_take_drop_id)
    then have "c # cs = ''---'' @ p @ [nl] @ r"
      by (simp only: t3 p(1))
    then have c: "c = CHR ''-''" and cs: "cs = ''--'' @ (p @ [nl]) @ r" by auto
    have "find_delim False ((p @ [nl]) @ r) = None"
      using find_delim_skip_nodash [OF space_no_dash [OF p(2)], of False r] Cons.prems(2)
      by simp
    then have "find_delim False cs = None"
      by (simp only: cs find_delim_dashes)
    then have "search_from False cs = None"
      by (rule search_from_no_delim)
    then show ?thesis using m c by (simp add: nl_def)
  qed
qed


lemma delim_here_ordinary_line:
  assumes "nl \<notin> set l" "\<not> is_delim_line l"
  shows "delim_here True (l @ nl # rest) = None"
proof (cases "take 3 (l @ nl # rest) = ''---''")
  case False
  then show ?thesis by (simp add: delim_here_def)
next
  case True
  have len: "3 \<le> length l"
  proof (rule ccontr)
    assume "\<not> 3 \<le> length l"
    then have lt: "length l < 3" by simp
    have "length l < length (take 3 (l @ nl # rest))"
      using lt by simp
    then have mem: "take 3 (l @ nl # rest) ! length l \<in> set (take 3 (l @ nl # rest))"
      by (rule nth_mem)
    have "take 3 (l @ nl # rest) ! length l = (l @ nl # rest) ! length l"
      using lt by (rule nth_take)
    then have "take 3 (l @ nl # rest) ! length l = nl"
      by (simp only: nth_append_length)
    with mem have "nl \<in> set (take 3 (l @ nl # rest))"
      by (simp only:)
    then have "nl \<in> set ''---''"
      unfolding True .
    then show False by (simp add: nl_def)
  qed
  then have t: "take 3 l = ''---''" using True by simp
  have d: "drop 3 (l @ nl # rest) = drop 3 l @ nl # rest" using len by simp
  from t assms(2) have "\<not> list_all is_space (drop 3 l)"
    by (simp add: is_delim_line_def)
  then have ex: "\<exists>x \<in> set (drop 3 l). \<not> is_space x"
    by (simp add: list_all_iff)
  from split_list_first_prop [OF ex]
  obtain w c w' where w0: "drop 3 l = w @ c # w'" "\<not> is_space c"
      "\<forall>y \<in> set w. \<not> \<not> is_space y"
    by blast
  from w0(3) have "list_all is_space w"
    by (simp add: list_all_iff)
  note w = w0(1) w0(2) this
  have "set w \<subseteq> set (drop 3 l)" by (auto simp: w(1))
  then have "set w \<subseteq> set l" using set_drop_subset [of 3 l] by blast
  then have "nl \<notin> set w" using assms(1) by auto
  then have "after_delim (w @ c # (w' @ nl # rest)) = None"
    using w(2) by (rule after_delim_no_nl)
  then show ?thesis using d w(1) by (simp add: delim_here_def)
qed

lemma find_delim_ordinary_line:
  assumes "nl \<notin> set l" "\<not> is_delim_line l"
  shows "find_delim True (l @ nl # rest)
           = map_option (\<lambda>(g, r). (l @ nl # g, r)) (find_delim True rest)"
proof (cases l)
  case Nil
  then show ?thesis
    by (cases "find_delim True rest") (auto simp: delim_here_def nl_def)
next
  case (Cons c l')
  have "delim_here True (c # l' @ nl # rest) = None"
    using delim_here_ordinary_line [OF assms, of rest] Cons by simp
  moreover have "c \<noteq> nl" "nl \<notin> set l'" using assms(1) Cons by auto
  ultimately show ?thesis
    using Cons find_delim_rest_of_line [of l' rest]
    by (cases "find_delim True rest") auto
qed

lemma find_delim_ordinary_lines:
  assumes "\<forall>l \<in> set ls. nl \<notin> set l \<and> \<not> is_delim_line l"
  shows "find_delim True (unlines ls @ rest)
           = map_option (\<lambda>(g, r). (unlines ls @ g, r)) (find_delim True rest)"
  using assms
proof (induction ls)
  case Nil
  show ?case by (cases "find_delim True rest") (auto simp: unlines_def)
next
  case (Cons l ls)
  then have IH: "find_delim True (unlines ls @ rest)
           = map_option (\<lambda>(g, r). (unlines ls @ g, r)) (find_delim True rest)"
    and l: "nl \<notin> set l" "\<not> is_delim_line l" by auto
  have "unlines (l # ls) @ rest = l @ nl # (unlines ls @ rest)"
    by (simp add: unlines_def)
  then show ?case
    using find_delim_ordinary_line [OF l, of "unlines ls @ rest"] IH
    by (cases "find_delim True rest") (auto simp: unlines_def)
qed

lemma find_delim_last_line:
  assumes "nl \<notin> set w2"
  shows "find_delim True (''---'' @ w2) = None"
proof -
  have "delim_here True (''---'' @ w2) = None"
    using after_delim_end [OF assms] by (simp add: delim_here_def)
  moreover have "find_delim False (''--'' @ w2) = None"
    using find_delim_dashes find_delim_no_nl [OF assms] by blast
  ultimately show ?thesis by (simp add: nl_def)
qed

lemma after_delim_opening:
  assumes "list_all is_space w1"
  shows "\<exists>r. after_delim (w1 @ nl # B) = Some r"
proof -
  have "takeWhile is_space (w1 @ nl # B) = w1 @ nl # takeWhile is_space B"
    using assms is_space_nl by (simp add: list_all_iff)
  then show ?thesis by (simp add: after_delim_def Let_def)
qed

lemma search_from_unterminated:
  assumes pre: "\<forall>l \<in> set pre. nl \<notin> set l \<and> \<not> is_delim_line l"
    and w1: "list_all is_space w1"
    and body: "\<forall>l \<in> set body. nl \<notin> set l \<and> \<not> is_delim_line l"
    and w2: "nl \<notin> set w2"
  shows "search_from True (unlines pre @ ''---'' @ w1 @ [nl] @ unlines body @ ''---'' @ w2) = None"
proof -
  define B where "B = unlines body @ ''---'' @ w2"
  have A: "find_delim True B = None"
    unfolding B_def
    using find_delim_ordinary_lines [OF body, of "''---'' @ w2"] find_delim_last_line [OF w2]
    by simp
  obtain r1 where r1: "after_delim (w1 @ nl # B) = Some r1"
    using after_delim_opening [OF w1] by blast
  from after_delim_Some [OF r1] obtain p where
    p: "w1 @ nl # B = p @ [nl] @ r1" "list_all is_space p" by blast
  have "find_delim False ((w1 @ [nl]) @ B) = None"
    using find_delim_skip_nodash [OF space_no_dash [OF w1], of False B] A by simp
  then have "find_delim False ((p @ [nl]) @ r1) = None"
    using p(1) by simp
  then have C: "find_delim True r1 = None"
    using find_delim_skip_nodash [OF space_no_dash [OF p(2)], of False r1] by simp
  have "delim_here True (''---'' @ w1 @ nl # B) = Some r1"
    using r1 by (simp add: delim_here_def)
  then have "find_delim True (''---'' @ w1 @ nl # B) = Some ([], r1)"
    by simp
  then have "find_delim True (unlines pre @ ''---'' @ w1 @ nl # B) = Some (unlines pre @ [], r1)"
    using find_delim_ordinary_lines [OF pre, of "''---'' @ w1 @ nl # B"] by simp
  then have "search_from True (unlines pre @ ''---'' @ w1 @ nl # B) = None"
    using C by (rule search_from_one_delim)
  then show ?thesis by (simp add: B_def)
qed

text \<open>
  Claim C10. A document made of any lines that are no delimiter lines, an opening
  delimiter line, further lines that are no delimiter lines, and a last line that reads
  \<open>---\<close> (with anything but a newline after it) has no metadata block for the parser:
  the metadata is empty and the instructions are the whole document, stripped.
\<close>

theorem parse_sop_md_unterminated:
  assumes "\<forall>l \<in> set pre. nl \<notin> set l \<and> \<not> is_delim_line l"
    and "list_all is_space w1"
    and "\<forall>l \<in> set body. nl \<notin> set l \<and> \<not> is_delim_line l"
    and "nl \<notin> set w2"
    and "content = unlines pre @ ''---'' @ w1 @ [nl] @ unlines body @ ''---'' @ w2"
  shows "parse_sop_md E content = Inr (YMap [], strip content)"
  using search_from_unterminated [OF assms(1-4)] assms(5)
  by (simp add: parse_sop_md_def)

theorem parse_sop_md_unterminated_witness:
  "parse_sop_md (demo_env [] []) (''---'' @ [nl] @ ''name: x'' @ [nl] @ ''---'')
     = Inr (YMap [], ''---'' @ [nl] @ ''name: x'' @ [nl] @ ''---'')"
  using parse_sop_md_unterminated [of "[]" "[]" "[''name: x'']" "[]"
      "''---'' @ [nl] @ ''name: x'' @ [nl] @ ''---''" "demo_env [] []"]
  by (simp add: unlines_def is_delim_line_def nl_def strip_def is_space_def)

section \<open>The catalog\<close>

lemma map_of_fold_update:
  "map_of (foldl (\<lambda>d sop. AList.update (s_name sop) sop d) d sops) k =
     (if filter (\<lambda>s. s_name s = k) sops = [] then map_of d k
      else Some (last (filter (\<lambda>s. s_name s = k) sops)))"
proof (induction sops arbitrary: d)
  case Nil
  then show ?case by simp
next
  case (Cons x xs)
  show ?case
    by (simp add: Cons.IH update_conv')
qed

lemma keys_fold_update:
  "fst ` set (foldl (\<lambda>d sop. AList.update (s_name sop) sop d) d sops)
     = fst ` set d \<union> s_name ` set sops"
  by (induction sops arbitrary: d) (auto simp: dom_update)

lemma distinct_fold_update:
  "distinct (map fst d) \<Longrightarrow>
   distinct (map fst (foldl (\<lambda>d sop. AList.update (s_name sop) sop d) d sops))"
  by (induction sops arbitrary: d) (simp_all add: distinct_update)

text \<open>
  Claim C7. In the catalog built from a discovery result, every identifier that occurs
  in the list is a key, each key occurs once, and the procedure under an identifier is
  the last one of the list with that identifier.
\<close>

theorem catalog_last_write_wins:
  "(\<forall>sop \<in> set sops.
      map_of (dict_of_sops sops) (s_name sop)
        = Some (last (filter (\<lambda>s. s_name s = s_name sop) sops)))
   \<and> fst ` set (dict_of_sops sops) = s_name ` set sops
   \<and> distinct (map fst (dict_of_sops sops))"
proof (intro conjI ballI)
  fix sop assume "sop \<in> set sops"
  then have "filter (\<lambda>s. s_name s = s_name sop) sops \<noteq> []"
    by (auto simp: filter_empty_conv)
  then show "map_of (dict_of_sops sops) (s_name sop)
        = Some (last (filter (\<lambda>s. s_name s = s_name sop) sops))"
    by (simp add: dict_of_sops_def map_of_fold_update)
next
  show "fst ` set (dict_of_sops sops) = s_name ` set sops"
    by (simp add: dict_of_sops_def keys_fold_update)
next
  show "distinct (map fst (dict_of_sops sops))"
    by (simp add: dict_of_sops_def distinct_fold_update)
qed

theorem catalog_last_write_wins_witness:
  "map_of (dict_of_sops demo_sops) ''alpha'' = Some (demo_sop ''alpha'' ''three'' gamma_dir)
   \<and> fst ` set (dict_of_sops demo_sops) = {''alpha'', ''beta''}"
proof -
  note main = catalog_last_write_wins [of demo_sops]
  have mem: "demo_sop ''alpha'' ''three'' gamma_dir \<in> set demo_sops"
    by (simp add: demo_sops_def)
  from main mem have "map_of (dict_of_sops demo_sops) (s_name (demo_sop ''alpha'' ''three'' gamma_dir))
      = Some (last (filter (\<lambda>s. s_name s = s_name (demo_sop ''alpha'' ''three'' gamma_dir)) demo_sops))"
    by blast
  then have one: "map_of (dict_of_sops demo_sops) ''alpha'' = Some (demo_sop ''alpha'' ''three'' gamma_dir)"
    by (simp add: demo_sops_def demo_sop_def)
  from main have "fst ` set (dict_of_sops demo_sops) = s_name ` set demo_sops"
    by blast
  then have two: "fst ` set (dict_of_sops demo_sops) = {''alpha'', ''beta''}"
    by (auto simp: demo_sops_def demo_sop_def)
  from one two show ?thesis by blast
qed


section \<open>The path guard\<close>

text \<open>
  Claim C2, as the code has it. When both paths resolve, the guard returns whether the
  canonical candidate is the canonical base or lies under it, and does not raise. When
  a resolution raises \<open>ValueError\<close> the guard returns false. Any other exception of a
  resolution leaves the guard.
\<close>

theorem is_safe_path_outcomes:
  "(resolve E target = Inr t \<longrightarrow> resolve E base = Inr b \<longrightarrow>
      is_safe_path E base target = Inr (prefix b t))
   \<and> (resolve E target = Inl ValueError \<longrightarrow> is_safe_path E base target = Inr False)
   \<and> (resolve E target = Inr t \<longrightarrow> resolve E base = Inl ValueError \<longrightarrow>
      is_safe_path E base target = Inr False)
   \<and> (resolve E target = Inl e \<longrightarrow> e \<noteq> ValueError \<longrightarrow> is_safe_path E base target = Inl e)
   \<and> (resolve E target = Inr t \<longrightarrow> resolve E base = Inl e \<longrightarrow> e \<noteq> ValueError \<longrightarrow>
      is_safe_path E base target = Inl e)"
  by (cases e) (simp_all add: is_safe_path_def bindE_def relative_to_def)

theorem is_safe_path_outcomes_witness:
  "is_safe_path link_env alpha_dir (alpha_dir @ [''resources'', ''schema.json'']) = Inr True
   \<and> is_safe_path link_env alpha_dir (alpha_dir @ [''FORMS.md'']) = Inr False
   \<and> is_safe_path null_env [''srv''] [''srv'', [CHR 0x00]] = Inr False
   \<and> is_safe_path null_env [''srv'', [CHR 0x00]] [''srv'', ''a''] = Inr False
   \<and> is_safe_path loop_env [''srv''] [''srv'', ''loop'']
       = Inl (RuntimeError ''Symlink loop from /srv/loop'')
   \<and> is_safe_path loop_env [''srv'', ''loop''] [''srv'', ''a'']
       = Inl (RuntimeError ''Symlink loop from /srv/loop'')"
proof -
  have 1: "is_safe_path link_env alpha_dir (alpha_dir @ [''resources'', ''schema.json'']) = Inr True"
    using is_safe_path_outcomes [of link_env "alpha_dir @ [''resources'', ''schema.json'']"
        "alpha_dir @ [''resources'', ''schema.json'']" alpha_dir alpha_dir]
    by (simp add: link_env_def demo_env_def alpha_dir_def)
  have 2: "is_safe_path link_env alpha_dir (alpha_dir @ [''FORMS.md'']) = Inr False"
    using is_safe_path_outcomes [of link_env "alpha_dir @ [''FORMS.md'']"
        "[''etc'', ''passwd'']" alpha_dir alpha_dir]
    by (simp add: link_env_def demo_env_def alpha_dir_def)
  have 3: "is_safe_path null_env [''srv''] [''srv'', [CHR 0x00]] = Inr False"
    using is_safe_path_outcomes [of null_env "[''srv'', [CHR 0x00]]" _ "[''srv'']"]
    by (simp add: null_env_def demo_env_def)
  have 4: "is_safe_path null_env [''srv'', [CHR 0x00]] [''srv'', ''a''] = Inr False"
    using is_safe_path_outcomes [of null_env "[''srv'', ''a'']" "[''srv'', ''a'']" "[''srv'', [CHR 0x00]]"]
    by (simp add: null_env_def demo_env_def)
  have 5: "is_safe_path loop_env [''srv''] [''srv'', ''loop'']
      = Inl (RuntimeError ''Symlink loop from /srv/loop'')"
    using is_safe_path_outcomes [of loop_env "[''srv'', ''loop'']" _ "[''srv'']" _
        "RuntimeError ''Symlink loop from /srv/loop''"]
    by (simp add: loop_env_def demo_env_def)
  have 6: "is_safe_path loop_env [''srv'', ''loop''] [''srv'', ''a'']
      = Inl (RuntimeError ''Symlink loop from /srv/loop'')"
    using is_safe_path_outcomes [of loop_env "[''srv'', ''a'']" "[''srv'', ''a'']" "[''srv'', ''loop'']" _
        "RuntimeError ''Symlink loop from /srv/loop''"]
    by (simp add: loop_env_def demo_env_def)
  from 1 2 3 4 5 6 show ?thesis by blast
qed

text \<open>
  Claim C2 as stated fails: on a symbolic link that points to itself the resolution
  raises \<open>RuntimeError\<close>, which the handler for \<open>ValueError\<close> does not catch, and the
  guard raises instead of returning false.
\<close>

theorem is_safe_path_raises:
  "is_safe_path loop_env [''srv''] [''srv'', ''loop'']
     = Inl (RuntimeError ''Symlink loop from /srv/loop'')"
  by (simp add: is_safe_path_def bindE_def loop_env_def demo_env_def)


section \<open>The tools\<close>



lemma read_sop_resource_executes_nothing:
  "ModuleExecuted p \<notin> set (fst (read_sop_resource E self sop_name resource_name))"
  by (auto simp: read_sop_resource_def Let_def split: option.splits sum.splits bool.splits)

lemma guarded_loads_examples:
  "guarded_loads []
     [SafePathChecked alpha_dir (alpha_dir @ [''tools'', ''toolset.py'']) (Inr True),
      ModuleExecuted (alpha_dir @ [''tools'', ''toolset.py''])]
   \<and> \<not> guarded_loads []
     [SafePathChecked alpha_dir (alpha_dir @ [''tools'', ''toolset.py'']) (Inr False),
      ModuleExecuted (alpha_dir @ [''tools'', ''toolset.py''])]
   \<and> \<not> guarded_loads []
     [ModuleExecuted (alpha_dir @ [''tools'', ''toolset.py'']),
      SafePathChecked alpha_dir (alpha_dir @ [''tools'', ''toolset.py'']) (Inr True)]"
  by code_simp

text \<open>
  \<open>_get_toolset\<close> itself calls no guard. In the file system where \<open>tools/toolset.py\<close>
  of \<open>alpha\<close> is a symbolic link to \<open>/tmp/evil.py\<close>, a call of \<open>_get_toolset\<close> on a
  catalog that holds \<open>alpha\<close> executes the module, although the guard rejects the
  module path. \<open>read_sop_resource\<close> calls the guard before it reads, and refuses the
  linked document \<open>FORMS.md\<close>.
\<close>

lemma get_toolset_calls_no_guard:
  "get_toolset link_env one_toolset ''alpha''
     = ([ModuleExecuted (alpha_dir @ [''tools'', ''toolset.py''])], Inr [''lookup''])
   \<and> \<not> guarded_loads [] (fst (get_toolset link_env one_toolset ''alpha''))
   \<and> is_safe_path link_env alpha_dir (alpha_dir @ [''tools'', ''toolset.py'']) = Inr False
   \<and> read_sop_resource link_env one_toolset ''alpha'' ''FORMS.md''
       = ([SafePathChecked alpha_dir (alpha_dir @ [''FORMS.md'']) (Inr False)],
          Inr ''Error: Resource path escapes SOP directory.'')"
  by code_simp


lemma contains_iff: "contains s sub \<longleftrightarrow> (\<exists>p q. s = p @ sub @ q)"
proof (induction s)
  case Nil
  then show ?case by auto
next
  case (Cons c cs)
  show ?case
  proof
    assume "contains (c # cs) sub"
    then consider "take (length sub) (c # cs) = sub" | "contains cs sub" by auto
    then show "\<exists>p q. c # cs = p @ sub @ q"
    proof cases
      case 1
      have "c # cs = take (length sub) (c # cs) @ drop (length sub) (c # cs)"
        by (simp only: append_take_drop_id)
      then have "c # cs = [] @ sub @ drop (length sub) (c # cs)"
        by (simp only: 1 append_Nil)
      then show ?thesis by blast
    next
      case 2
      then obtain p q where "cs = p @ sub @ q" using Cons.IH by blast
      then have "c # cs = (c # p) @ sub @ q" by simp
      then show ?thesis by blast
    qed
  next
    assume "\<exists>p q. c # cs = p @ sub @ q"
    then obtain p q where pq: "c # cs = p @ sub @ q" by blast
    show "contains (c # cs) sub"
    proof (cases p)
      case Nil
      then have "take (length sub) (c # cs) = sub" using pq by simp
      then show ?thesis by simp
    next
      case (Cons a p')
      then have "cs = p' @ sub @ q" using pq by simp
      then have "contains cs sub" using Cons.IH by blast
      then show ?thesis by simp
    qed
  qed
qed

lemma join_contains: "x \<in> set xs \<Longrightarrow> \<exists>p q. join sep xs = p @ x @ q"
proof (induction sep xs rule: join.induct)
  case (1 sep)
  then show ?case by simp
next
  case (2 sep y)
  then have "join sep [y] = [] @ x @ []" by simp
  then show ?case by blast
next
  case (3 sep y z zs)
  show ?case
  proof (cases "x = y")
    case True
    then have "join sep (y # z # zs) = [] @ x @ (sep @ join sep (z # zs))" by simp
    then show ?thesis by blast
  next
    case False
    then have "x \<in> set (z # zs)" using 3 by simp
    then obtain p q where "join sep (z # zs) = p @ x @ q" using 3 by blast
    then have "join sep (y # z # zs) = (y @ sep @ p) @ x @ q" by simp
    then show ?thesis by blast
  qed
qed

lemma repr_list_contains:
  assumes "x \<in> set xs"
  shows "contains (pre @ repr_list E xs) (py_repr E x)"
proof -
  have "py_repr E x \<in> set (map (py_repr E) xs)" using assms by simp
  then obtain p q where "join '', '' (map (py_repr E) xs) = p @ py_repr E x @ q"
    using join_contains by blast
  then have "pre @ repr_list E xs = (pre @ ''['' @ p) @ py_repr E x @ (q @ '']'')"
    by (simp add: repr_list_def)
  then show ?thesis unfolding contains_iff by blast
qed

text \<open>
  \<open>read_sop_resource\<close> returns a text and does not raise, both for an unknown
  procedure and for an unknown resource of a known procedure. For an unknown procedure
  the text names the identifier asked for and nothing else. For an unknown resource
  the text ends with the list of the names of the resources of the procedure, each as
  \<open>repr\<close> prints it.
\<close>

theorem read_sop_resource_not_found:
  "(map_of (t_sops self) sop_name = None \<longrightarrow>
      read_sop_resource E self sop_name resource_name
        = ([], Inr (''Error: SOP '' @ [quote] @ sop_name @ [quote] @ '' not found.'')))
   \<and> (map_of (t_sops self) sop_name = Some sop \<longrightarrow>
        find (\<lambda>r. r_name r = resource_name) (s_resources sop) = None \<longrightarrow>
        (\<exists>text. read_sop_resource E self sop_name resource_name = ([], Inr text)
           \<and> text = ''Error: Resource '' @ [quote] @ resource_name @ [quote]
                 @ '' not found in SOP '' @ [quote] @ sop_name @ [quote] @ ''. ''
                 @ ''Available resources: '' @ repr_list E (map r_name (s_resources sop))
           \<and> (\<forall>r \<in> set (s_resources sop). contains text (py_repr E (r_name r)))))"
proof (intro conjI impI)
  assume "map_of (t_sops self) sop_name = None"
  then show "read_sop_resource E self sop_name resource_name
        = ([], Inr (''Error: SOP '' @ [quote] @ sop_name @ [quote] @ '' not found.''))"
    by (simp add: read_sop_resource_def)
next
  assume a: "map_of (t_sops self) sop_name = Some sop"
    and b: "find (\<lambda>r. r_name r = resource_name) (s_resources sop) = None"
  define pre where "pre = ''Error: Resource '' @ [quote] @ resource_name @ [quote]
                 @ '' not found in SOP '' @ [quote] @ sop_name @ [quote] @ ''. ''
                 @ ''Available resources: ''"
  have "read_sop_resource E self sop_name resource_name
      = ([], Inr (pre @ repr_list E (map r_name (s_resources sop))))"
    using a b by (simp add: read_sop_resource_def pre_def)
  moreover have "\<forall>r \<in> set (s_resources sop).
      contains (pre @ repr_list E (map r_name (s_resources sop))) (py_repr E (r_name r))"
    using repr_list_contains [of _ "map r_name (s_resources sop)" pre E] by simp
  ultimately show "\<exists>text. read_sop_resource E self sop_name resource_name = ([], Inr text)
           \<and> text = ''Error: Resource '' @ [quote] @ resource_name @ [quote]
                 @ '' not found in SOP '' @ [quote] @ sop_name @ [quote] @ ''. ''
                 @ ''Available resources: '' @ repr_list E (map r_name (s_resources sop))
           \<and> (\<forall>r \<in> set (s_resources sop). contains text (py_repr E (r_name r)))"
    by (simp add: pre_def)
qed

theorem read_sop_resource_not_found_witness:
  "read_sop_resource (demo_env [] []) one_toolset ''ghost'' ''FORMS.md''
     = ([], Inr (''Error: SOP '' @ [quote] @ ''ghost'' @ [quote] @ '' not found.''))
   \<and> read_sop_resource (demo_env [] []) one_toolset ''alpha'' ''NOTES.md''
     = ([], Inr (''Error: Resource '' @ [quote] @ ''NOTES.md'' @ [quote]
                 @ '' not found in SOP '' @ [quote] @ ''alpha'' @ [quote] @ ''. ''
                 @ ''Available resources: ['' @ [quote] @ ''FORMS.md'' @ [quote] @ '', ''
                 @ [quote] @ ''REFERENCE.md'' @ [quote] @ '']''))"
proof -
  have 1: "read_sop_resource (demo_env [] []) one_toolset ''ghost'' ''FORMS.md''
     = ([], Inr (''Error: SOP '' @ [quote] @ ''ghost'' @ [quote] @ '' not found.''))"
    using read_sop_resource_not_found [of one_toolset "''ghost''" "demo_env [] []" "''FORMS.md''"]
    by (simp add: one_toolset_def)
  have "\<exists>text. read_sop_resource (demo_env [] []) one_toolset ''alpha'' ''NOTES.md'' = ([], Inr text)
      \<and> text = ''Error: Resource '' @ [quote] @ ''NOTES.md'' @ [quote]
                 @ '' not found in SOP '' @ [quote] @ ''alpha'' @ [quote] @ ''. ''
                 @ ''Available resources: ''
                 @ repr_list (demo_env [] []) (map r_name (s_resources (snd (hd (t_sops one_toolset)))))"
    using read_sop_resource_not_found [of one_toolset "''alpha''" "demo_env [] []" "''NOTES.md''"
        "snd (hd (t_sops one_toolset))"]
    by (simp add: one_toolset_def demo_sop_def)
  then have 2: "read_sop_resource (demo_env [] []) one_toolset ''alpha'' ''NOTES.md''
     = ([], Inr (''Error: Resource '' @ [quote] @ ''NOTES.md'' @ [quote]
                 @ '' not found in SOP '' @ [quote] @ ''alpha'' @ [quote] @ ''. ''
                 @ ''Available resources: ['' @ [quote] @ ''FORMS.md'' @ [quote] @ '', ''
                 @ [quote] @ ''REFERENCE.md'' @ [quote] @ '']''))"
    by (simp add: one_toolset_def demo_sop_def repr_list_def demo_env_def)
  from 1 2 show ?thesis by blast
qed

text \<open>
  Claim C4. The claim: for an unknown procedure, the text that \<open>read_sop_resource\<close>
  returns lists the known identifiers. The catalog holds \<open>alpha\<close>, and the text returned
  for the identifier \<open>ghost\<close> does not mention \<open>alpha\<close>; for the same identifier,
  \<open>activate_sop\<close> returns a text that lists the known identifiers.
\<close>

theorem read_sop_resource_unknown_sop_lists_nothing:
  "read_sop_resource (demo_env [] []) one_toolset ''ghost'' ''FORMS.md''
     = ([], Inr (''Error: SOP '' @ [quote] @ ''ghost'' @ [quote] @ '' not found.''))
   \<and> map fst (t_sops one_toolset) = [''alpha'']
   \<and> \<not> contains (''Error: SOP '' @ [quote] @ ''ghost'' @ [quote] @ '' not found.'') ''alpha''
   \<and> activate_sop (demo_env [] []) one_toolset demo_ctx ''ghost''
     = ([], Inr (''Error: SOP '' @ [quote] @ ''ghost'' @ [quote]
                   @ '' not found. Available SOPs: alpha'', demo_ctx))"
  by code_simp


section \<open>The catalog along a run\<close>

lemma update_pred:
  assumes "list_all (\<lambda>(k, v). P k v) al" "P k v"
  shows "list_all (\<lambda>(k, v). P k v) (AList.update k v al)"
  using assms by (induction al) auto

lemma dict_of_sops_consistent_aux:
  "list_all (\<lambda>(k, sop). s_name sop = k) d \<Longrightarrow>
   list_all (\<lambda>(k, sop). s_name sop = k) (foldl (\<lambda>d sop. AList.update (s_name sop) sop d) d sops)"
proof (induction sops arbitrary: d)
  case Nil
  then show ?case by simp
next
  case (Cons x xs)
  have "list_all (\<lambda>(k, sop). s_name sop = k) (AList.update (s_name x) x d)"
    using Cons.prems by (rule update_pred) simp
  then show ?case using Cons.IH by simp
qed

lemma dict_of_sops_consistent:
  "list_all (\<lambda>(k, sop). s_name sop = k) (dict_of_sops sops)"
  unfolding dict_of_sops_def by (rule dict_of_sops_consistent_aux) simp

lemma discover_sops_method_consistent:
  "discover_sops_method E self = Inr self' \<Longrightarrow> catalog_consistent self'"
  by (auto simp: discover_sops_method_def bindE_def catalog_consistent_def
      dict_of_sops_consistent split: sum.splits)

lemma init_consistent:
  assumes "init E directories auto_discover validate = Inr self"
  shows "catalog_consistent self"
proof (cases auto_discover)
  case True
  then have "discover_sops_method E
      \<lparr>t_directories = directories, t_validate = validate, t_sops = []\<rparr> = Inr self"
    using assms by (simp add: init_def)
  then show ?thesis by (rule discover_sops_method_consistent)
next
  case False
  then have "self = \<lparr>t_directories = directories, t_validate = validate, t_sops = []\<rparr>"
    using assms by (simp add: init_def)
  then show ?thesis by (simp add: catalog_consistent_def)
qed

lemma refresh_consistent:
  "refresh E self = Inr self' \<Longrightarrow> catalog_consistent self'"
  unfolding refresh_def by (rule discover_sops_method_consistent)

lemma call_catalog:
  "fst (snd (snd (call E operation (self, c)))) =
     (case operation of
        Refresh \<Rightarrow> (case refresh E self of Inl e \<Rightarrow> self | Inr self' \<Rightarrow> self')
      | _ \<Rightarrow> self)"
  by (cases operation) (auto split: sum.splits prod.splits)

lemma step_consistent:
  "catalog_consistent (fst st) \<Longrightarrow> catalog_consistent (fst (step st eo))"
proof -
  obtain self c where st: "st = (self, c)" by (cases st)
  obtain E operation where eo: "eo = (E, operation)" by (cases eo)
  assume "catalog_consistent (fst st)"
  then show ?thesis
    unfolding st eo step_def
    by (auto simp: call_catalog refresh_consistent split: operation.splits sum.splits)
qed

lemma run_consistent:
  "catalog_consistent (fst st) \<Longrightarrow> catalog_consistent (fst (foldl step st ops))"
  by (induction ops arbitrary: st) (simp_all add: step_consistent)

text \<open>
  Claim C9. After the constructor, with or without discovery, and after every
  \<open>refresh\<close> that returns, every key of the catalog is the name of the procedure
  stored under it. A call of \<open>list_sops\<close>, \<open>activate_sop\<close> or \<open>read_sop_resource\<close>
  leaves the catalog as it is, whatever the call returns or raises. So the property
  holds after any sequence of the four operations, each in its own state of the file
  system, from any toolset that has it, and from the toolset the constructor returns.
\<close>

theorem catalog_keys_are_names:
  "(init E directories auto_discover validate = Inr self \<longrightarrow> catalog_consistent self)
   \<and> (refresh E' toolset = Inr toolset' \<longrightarrow> catalog_consistent toolset')
   \<and> (operation \<noteq> Refresh \<longrightarrow> fst (snd (snd (call E' operation (toolset, c)))) = toolset)
   \<and> (catalog_consistent toolset \<longrightarrow> catalog_consistent (fst (foldl step (toolset, c) ops)))
   \<and> (init E directories auto_discover validate = Inr self \<longrightarrow>
        catalog_consistent (fst (foldl step (self, c) ops)))"
proof (intro conjI impI)
  assume "init E directories auto_discover validate = Inr self"
  then show "catalog_consistent self"
    by (rule init_consistent)
next
  assume "refresh E' toolset = Inr toolset'"
  then show "catalog_consistent toolset'"
    by (rule refresh_consistent)
next
  assume "operation \<noteq> Refresh"
  then show "fst (snd (snd (call E' operation (toolset, c)))) = toolset"
    by (simp add: call_catalog split: operation.splits)
next
  assume "catalog_consistent toolset"
  then have "catalog_consistent (fst (toolset, c))"
    by simp
  then show "catalog_consistent (fst (foldl step (toolset, c) ops))"
    by (rule run_consistent)
next
  assume "init E directories auto_discover validate = Inr self"
  then have "catalog_consistent (fst (self, c))"
    by (simp add: init_consistent)
  then show "catalog_consistent (fst (foldl step (self, c) ops))"
    by (rule run_consistent)
qed

theorem catalog_keys_are_names_witness:
  "init beta_env [[''srv'', ''sops'']] True True
     = Inr \<lparr>t_directories = [[''srv'', ''sops'']], t_validate = True, t_sops = []\<rparr>
   \<and> refresh grown_env one_toolset = Inl TypeError
   \<and> refresh beta_env one_toolset = Inr (one_toolset\<lparr>t_sops := []\<rparr>)
   \<and> catalog_consistent (one_toolset\<lparr>t_sops := []\<rparr>)
   \<and> call grown_env (ActivateSop ''alpha'') (one_toolset, demo_ctx)
       = ([], Inl AttributeError, (one_toolset, demo_ctx))
   \<and> map fst (t_sops (fst (foldl step (one_toolset, demo_ctx) (take 5 demo_run)))) = [''alpha'']
   \<and> catalog_consistent (fst (foldl step (one_toolset, demo_ctx) (take 5 demo_run)))
   \<and> t_sops (fst (foldl step (one_toolset, demo_ctx) demo_run)) = []
   \<and> catalog_consistent (fst (foldl step (one_toolset, demo_ctx) demo_run))
   \<and> catalog_consistent
        (fst (foldl step
           (\<lparr>t_directories = [[''srv'', ''sops'']], t_validate = True, t_sops = []\<rparr>, demo_ctx)
           demo_run))"
proof -
  let ?empty = "\<lparr>t_directories = [[''srv'', ''sops'']], t_validate = True, t_sops = []\<rparr>"
  have h1: "init beta_env [[''srv'', ''sops'']] True True = Inr ?empty"
    by code_simp
  have h2: "refresh beta_env one_toolset = Inr (one_toolset\<lparr>t_sops := []\<rparr>)"
    by code_simp
  have h3: "ActivateSop ''alpha'' \<noteq> Refresh"
    by simp
  have h4: "catalog_consistent one_toolset"
    by code_simp
  have v1: "refresh grown_env one_toolset = Inl TypeError"
    by code_simp
  have v2: "call grown_env (ActivateSop ''alpha'') (one_toolset, demo_ctx)
       = ([], Inl AttributeError, (one_toolset, demo_ctx))"
    by code_simp
  have v3: "map fst (t_sops (fst (foldl step (one_toolset, demo_ctx) (take 5 demo_run)))) = [''alpha'']"
    by code_simp
  have v4: "t_sops (fst (foldl step (one_toolset, demo_ctx) demo_run)) = []"
    by code_simp
  note a = catalog_keys_are_names [where E = beta_env and directories = "[[''srv'', ''sops'']]"
      and auto_discover = True and validate = True and self = ?empty and E' = beta_env
      and toolset = one_toolset and toolset' = "one_toolset\<lparr>t_sops := []\<rparr>"
      and operation = "ActivateSop ''alpha''" and c = demo_ctx and ops = demo_run]
  note b = catalog_keys_are_names [where toolset = one_toolset and c = demo_ctx
      and ops = "take 5 demo_run"]
  have 1: "catalog_consistent (one_toolset\<lparr>t_sops := []\<rparr>)"
    using a h2 by blast
  have 2: "catalog_consistent (fst (foldl step (one_toolset, demo_ctx) demo_run))"
    using a h4 by blast
  have 3: "catalog_consistent (fst (foldl step (?empty, demo_ctx) demo_run))"
    using a h1 by blast
  have 4: "catalog_consistent (fst (foldl step (one_toolset, demo_ctx) (take 5 demo_run)))"
    using b h4 by blast
  from h1 v1 h2 1 v2 v3 4 v4 2 3 show ?thesis
    by blast
qed


section \<open>Discovery\<close>

lemma discover_files_skip:
  assumes "load_entry E validate f = Inr None \<or> (\<exists>msg. load_entry E validate f = Inl (OSError msg))"
  shows "discover_files E validate sops (pre @ f # rest) = discover_files E validate sops (pre @ rest)"
proof (induction pre arbitrary: sops)
  case Nil
  from assms show ?case by auto
next
  case (Cons g pre)
  show ?case
  proof (cases "load_entry E validate g")
    case (Inl e)
    then show ?thesis using Cons.IH by (cases e) simp_all
  next
    case (Inr r)
    then show ?thesis using Cons.IH by (cases r) simp_all
  qed
qed

lemma discover_files_raise:
  assumes "load_entry E validate f = Inl e" "\<not> is_OSError e"
  shows "discover_files E validate sops (f # rest) = Inl e"
  using assms by (cases e) (simp_all add: is_OSError_def)

lemma discover_files_raise_after:
  assumes "load_entry E validate f = Inl e" "\<not> is_OSError e" "list_all (passes E validate) pre"
  shows "discover_files E validate sops (pre @ f # rest) = Inl e"
  using assms(3)
proof (induction pre arbitrary: sops)
  case Nil
  show ?case using discover_files_raise [OF assms(1,2)] by simp
next
  case (Cons g pre)
  then have p: "passes E validate g" and IH: "\<And>sops. discover_files E validate sops (pre @ f # rest) = Inl e"
    by simp_all
  show ?case
  proof (cases "load_entry E validate g")
    case (Inl e')
    then have "is_OSError e'" using p by (simp add: passes_def)
    then show ?thesis using Inl IH by (cases e') (simp_all add: is_OSError_def)
  next
    case (Inr r)
    then show ?thesis using IH by (cases r) simp_all
  qed
qed

lemma discover_files_no_catalog:
  assumes "load_entry E validate f = Inl e" "\<not> is_OSError e" "f \<in> set fs"
  shows "\<exists>e'. discover_files E validate sops fs = Inl e'"
  using assms(3)
proof (induction fs arbitrary: sops)
  case Nil
  then show ?case by simp
next
  case (Cons g fs)
  show ?case
  proof (cases "g = f")
    case True
    then show ?thesis using discover_files_raise [OF assms(1,2)] by simp
  next
    case False
    then have IH: "\<And>sops. \<exists>e'. discover_files E validate sops fs = Inl e'"
      using Cons by simp
    show ?thesis
    proof (cases "load_entry E validate g")
      case (Inl e')
      then show ?thesis using IH by (cases e') simp_all
    next
      case (Inr r)
      then show ?thesis using IH by (cases r) simp_all
    qed
  qed
qed

lemma discover_dirs_no_catalog:
  assumes "load_entry E validate f = Inl e" "\<not> is_OSError e"
    and "expanduser E d = Inr home" "resolve E home = Inr dir_path"
    and "path_exists E dir_path = Inr True" "is_dir E dir_path = Inr True"
    and "f \<in> set (glob_sop_md E dir_path)"
    and "d \<in> set directories"
  shows "\<exists>e'. discover_dirs E validate sops directories = Inl e'"
  using assms(8)
proof (induction directories arbitrary: sops)
  case Nil
  then show ?case by simp
next
  case (Cons x xs)
  show ?case
  proof (cases "x = d")
    case True
    obtain e' where "discover_files E validate sops (glob_sop_md E dir_path) = Inl e'"
      using discover_files_no_catalog [OF assms(1,2,7)] by blast
    then show ?thesis
      using True assms(3-6) by (simp add: bindE_def)
  next
    case False
    then have IH: "\<And>sops. \<exists>e'. discover_dirs E validate sops xs = Inl e'"
      using Cons by simp
    show ?thesis
      using IH by (auto simp: bindE_def split: sum.splits)
  qed
qed

lemma load_entry_parse_error:
  assumes "read_text E f = Inr content" "parse_sop_md E content = Inl e"
  shows "load_entry E validate f = Inl e"
  using assms by (simp add: load_entry_def read_manifest_def bindE_def)

lemma parse_sop_md_yaml_error:
  assumes "search_from True content = Some (group1, rest)" "strip group1 \<noteq> []"
    and "yaml_safe_load E (strip group1) = Inl (YAMLError msg)"
  shows "parse_sop_md E content
           = Inl (SOPValidationError (''Failed to parse YAML frontmatter: '' @ msg))"
  using assms by (simp add: parse_sop_md_def)

lemma build_sop_raises: "\<exists>e. build_sop E sop_folder mf = Inl e"
  by (simp add: build_sop_def SOP_with_has_toolset_def bindE_def split: sum.splits)

lemma load_entry_appends_nothing: "load_entry E validate f \<noteq> Inr (Some sop)"
proof -
  have "build_sop E (parent f) mf \<noteq> Inr x" for mf x
    using build_sop_raises [of E "parent f" mf] by auto
  then show ?thesis
    by (auto simp: load_entry_def bindE_def split: sum.splits option.splits)
qed

lemma discover_files_appends_nothing:
  "discover_files E validate sops fs = Inr sops' \<Longrightarrow> sops' = sops"
proof (induction fs arbitrary: sops)
  case Nil
  then show ?case by simp
next
  case (Cons f fs)
  show ?case
  proof (cases "load_entry E validate f")
    case (Inl e)
    then show ?thesis using Cons by (cases e) simp_all
  next
    case (Inr r)
    then have "r = None"
      using load_entry_appends_nothing [of E validate f] by (cases r) simp_all
    then show ?thesis using Inr Cons by simp
  qed
qed

lemma discover_dirs_appends_nothing:
  "discover_dirs E validate sops ds = Inr sops' \<Longrightarrow> sops' = sops"
proof (induction ds arbitrary: sops)
  case Nil
  then show ?case by simp
next
  case (Cons d ds)
  from Cons.prems show ?case
    by (auto simp: bindE_def split: sum.splits if_splits
        dest: discover_files_appends_nothing Cons.IH)
qed

text \<open>
  Since the call of the constructor raises \<open>TypeError\<close>, a discovery that returns
  returns the empty list: every manifest that it meets was skipped.
\<close>

lemma discover_sops_returns_empty:
  "discover_sops E directories validate = Inr sops \<Longrightarrow> sops = []"
  unfolding discover_sops_def by (rule discover_dirs_appends_nothing)

text \<open>
  Claim C5, as the code has it. If a manifest found under a root that is traversed
  fails to decode, the call returns no catalog; the \<open>SOPValidationError\<close> leaves the
  loop over the manifests, and the call, when no earlier manifest has ended the loop.
  An \<open>OSError\<close> raised while an entry is loaded, and an entry without identifier
  under validation, affect that entry only: the loop goes on as it does without that
  manifest. Any exception that is no \<open>OSError\<close> leaves the loop like the
  \<open>SOPValidationError\<close>.
\<close>

theorem discover_decode_failure_fatal:
  "(d \<in> set directories \<longrightarrow> expanduser E d = Inr home \<longrightarrow> resolve E home = Inr dir_path \<longrightarrow>
      path_exists E dir_path = Inr True \<longrightarrow> is_dir E dir_path = Inr True \<longrightarrow>
      f \<in> set (glob_sop_md E dir_path) \<longrightarrow>
      read_text E f = Inr content \<longrightarrow> parse_sop_md E content = Inl (SOPValidationError msg) \<longrightarrow>
      (\<exists>e. discover_sops E directories validate = Inl e))
   \<and> (list_all (passes E validate) pre \<longrightarrow>
      read_text E f = Inr content \<longrightarrow> parse_sop_md E content = Inl (SOPValidationError msg) \<longrightarrow>
      discover_files E validate sops (pre @ f # rest) = Inl (SOPValidationError msg))
   \<and> (expanduser E d = Inr home \<longrightarrow> resolve E home = Inr dir_path \<longrightarrow>
      path_exists E dir_path = Inr True \<longrightarrow> is_dir E dir_path = Inr True \<longrightarrow>
      glob_sop_md E dir_path = pre @ f # rest \<longrightarrow> list_all (passes E validate) pre \<longrightarrow>
      read_text E f = Inr content \<longrightarrow> parse_sop_md E content = Inl (SOPValidationError msg) \<longrightarrow>
      discover_sops E (d # others) validate = Inl (SOPValidationError msg))
   \<and> (load_entry E validate f = Inl (OSError msg) \<longrightarrow>
      discover_files E validate sops (pre @ f # rest) = discover_files E validate sops (pre @ rest))
   \<and> (load_entry E validate f = Inr None \<longrightarrow>
      discover_files E validate sops (pre @ f # rest) = discover_files E validate sops (pre @ rest))
   \<and> (list_all (passes E validate) pre \<longrightarrow> load_entry E validate f = Inl e \<longrightarrow>
      \<not> is_OSError e \<longrightarrow> discover_files E validate sops (pre @ f # rest) = Inl e)"
proof -
  have nos: "\<not> is_OSError (SOPValidationError msg)"
    by (simp add: is_OSError_def)
  have 1: "\<exists>e. discover_sops E directories validate = Inl e"
    if "d \<in> set directories" "expanduser E d = Inr home" "resolve E home = Inr dir_path"
      "path_exists E dir_path = Inr True" "is_dir E dir_path = Inr True"
      "f \<in> set (glob_sop_md E dir_path)"
      "read_text E f = Inr content" "parse_sop_md E content = Inl (SOPValidationError msg)"
    unfolding discover_sops_def
    using discover_dirs_no_catalog [OF load_entry_parse_error [OF that(7,8)] nos that(2-6) that(1)]
    by blast
  have 2: "discover_files E validate sops (pre @ f # rest) = Inl (SOPValidationError msg)"
    if "list_all (passes E validate) pre"
      "read_text E f = Inr content" "parse_sop_md E content = Inl (SOPValidationError msg)"
    for sops
    using discover_files_raise_after [OF load_entry_parse_error [OF that(2,3)] nos that(1)] .
  have 3: "discover_sops E (d # others) validate = Inl (SOPValidationError msg)"
    if "expanduser E d = Inr home" "resolve E home = Inr dir_path"
      "path_exists E dir_path = Inr True" "is_dir E dir_path = Inr True"
      "glob_sop_md E dir_path = pre @ f # rest" "list_all (passes E validate) pre"
      "read_text E f = Inr content" "parse_sop_md E content = Inl (SOPValidationError msg)"
    using that(1-5) 2 [OF that(6-8), of "[]"]
    by (simp add: discover_sops_def bindE_def)
  have 4: "discover_files E validate sops (pre @ f # rest) = discover_files E validate sops (pre @ rest)"
    if "load_entry E validate f = Inl (OSError msg)"
    using discover_files_skip [of E validate f sops pre rest] that by blast
  have 5: "discover_files E validate sops (pre @ f # rest) = discover_files E validate sops (pre @ rest)"
    if "load_entry E validate f = Inr None"
    using discover_files_skip [of E validate f sops pre rest] that by blast
  have 6: "discover_files E validate sops (pre @ f # rest) = Inl e"
    if "list_all (passes E validate) pre" "load_entry E validate f = Inl e" "\<not> is_OSError e"
    using discover_files_raise_after [OF that(2,3,1)] .
  from 1 2 3 4 5 6 show ?thesis by blast
qed

theorem discover_decode_failure_fatal_witness:
  "(\<exists>e. discover_sops bad_env [[''srv'', ''sops'']] True = Inl e)
   \<and> discover_files bad_env True []
        ([beta_dir @ [''SOP.md'']] @ [''srv'', ''sops'', ''delta'', ''SOP.md'']
           # [epsilon_dir @ [''SOP.md'']])
       = Inl (SOPValidationError ''Failed to parse YAML frontmatter: expected a flow sequence end'')
   \<and> discover_sops bad_env ([''srv'', ''sops''] # [[''srv'', ''other'']]) True
       = Inl (SOPValidationError ''Failed to parse YAML frontmatter: expected a flow sequence end'')
   \<and> discover_files unreadable_env True [] ([] @ (beta_dir @ [''SOP.md'']) # [epsilon_dir @ [''SOP.md'']])
       = discover_files unreadable_env True [] ([] @ [epsilon_dir @ [''SOP.md'']])
   \<and> discover_files unreadable_env True [] [epsilon_dir @ [''SOP.md'']] = Inr []
   \<and> discover_files (demo_env nameless_files []) True []
        ([beta_dir @ [''SOP.md'']] @ (epsilon_dir @ [''SOP.md'']) # [])
       = discover_files (demo_env nameless_files []) True [] ([beta_dir @ [''SOP.md'']] @ [])
   \<and> discover_files garbled_env True [] ([beta_dir @ [''SOP.md'']] @ (epsilon_dir @ [''SOP.md'']) # [])
       = Inl UnicodeDecodeError"
proof -
  let ?msg = "''expected a flow sequence end''"
  let ?full = "''Failed to parse YAML frontmatter: expected a flow sequence end''"
  let ?root = "[''srv'', ''sops'']"
  let ?delta = "[''srv'', ''sops'', ''delta'', ''SOP.md'']"
  let ?beta = "beta_dir @ [''SOP.md'']"
  let ?epsilon = "epsilon_dir @ [''SOP.md'']"
  have h1: "expanduser bad_env ?root = Inr ?root" by code_simp
  have h2: "resolve bad_env ?root = Inr ?root" by code_simp
  have h3: "path_exists bad_env ?root = Inr True" by code_simp
  have h4: "is_dir bad_env ?root = Inr True" by code_simp
  have h5: "glob_sop_md bad_env ?root = [?beta] @ ?delta # [?epsilon]" by code_simp
  then have h6: "?delta \<in> set (glob_sop_md bad_env ?root)" by simp
  have h7: "list_all (passes bad_env True) [?beta]" by code_simp
  have h8: "read_text bad_env ?delta = Inr delta_md" by code_simp
  have h9: "parse_sop_md bad_env delta_md = Inl (SOPValidationError ?full)" by code_simp
  have h10: "load_entry unreadable_env True ?beta = Inl (OSError ''Permission denied'')"
    by code_simp
  have h11: "load_entry (demo_env nameless_files []) True ?epsilon = Inr None"
    by code_simp
  have h12: "list_all (passes garbled_env True) [?beta]" by code_simp
  have h13: "load_entry garbled_env True ?epsilon = Inl UnicodeDecodeError" by code_simp
  have h14: "\<not> is_OSError UnicodeDecodeError" by (simp add: is_OSError_def)
  have v: "discover_files unreadable_env True [] [?epsilon] = Inr []" by code_simp
  note a = discover_decode_failure_fatal [where E = bad_env and d = ?root and directories = "[?root]"
      and home = ?root and dir_path = ?root and f = ?delta and content = delta_md
      and msg = ?full and validate = True and pre = "[?beta]" and rest = "[?epsilon]"
      and sops = "[]" and others = "[[''srv'', ''other'']]"]
  note b = discover_decode_failure_fatal [where E = unreadable_env and f = ?beta
      and msg = "''Permission denied''" and validate = True and pre = "[]"
      and rest = "[?epsilon]" and sops = "[]"]
  note c = discover_decode_failure_fatal [where E = "demo_env nameless_files []"
      and f = ?epsilon and validate = True and pre = "[?beta]" and rest = "[]" and sops = "[]"]
  note d = discover_decode_failure_fatal [where E = garbled_env and f = ?epsilon
      and e = UnicodeDecodeError and validate = True and pre = "[?beta]" and rest = "[]"
      and sops = "[]"]
  have 1: "\<exists>e. discover_sops bad_env [?root] True = Inl e"
    using a h1 h2 h3 h4 h6 h8 h9 by simp
  have 2: "discover_files bad_env True [] ([?beta] @ ?delta # [?epsilon]) = Inl (SOPValidationError ?full)"
    using a h7 h8 h9 by blast
  have 3: "discover_sops bad_env (?root # [[''srv'', ''other'']]) True = Inl (SOPValidationError ?full)"
    using a h1 h2 h3 h4 h5 h7 h8 h9 by blast
  have 4: "discover_files unreadable_env True [] ([] @ ?beta # [?epsilon])
       = discover_files unreadable_env True [] ([] @ [?epsilon])"
    using b h10 by blast
  have 5: "discover_files (demo_env nameless_files []) True [] ([?beta] @ ?epsilon # [])
       = discover_files (demo_env nameless_files []) True [] ([?beta] @ [])"
    using c h11 by blast
  have 6: "discover_files garbled_env True [] ([?beta] @ ?epsilon # []) = Inl UnicodeDecodeError"
    using d h12 h13 h14 by blast
  from 1 2 3 4 v 5 6 show ?thesis by blast
qed

text \<open>
  Claim C5 as stated fails in its second half. The manifest of \<open>epsilon\<close> is not
  UTF-8, so \<open>read_text\<close> raises \<open>UnicodeDecodeError\<close>, which is no decode failure of a
  metadata block and no \<open>OSError\<close>; no handler of the loop catches it, and the whole
  call raises. The entry \<open>beta\<close> before it is skipped, and over \<open>beta\<close> alone the call
  returns.
\<close>

theorem discover_aborts_on_undecodable_manifest:
  "load_entry garbled_env True (beta_dir @ [''SOP.md'']) = Inr None
   \<and> load_entry garbled_env True (epsilon_dir @ [''SOP.md'']) = Inl UnicodeDecodeError
   \<and> discover_sops garbled_env [[''srv'', ''sops'']] True = Inl UnicodeDecodeError
   \<and> discover_sops beta_env [[''srv'', ''sops'']] True = Inr []"
  by code_simp


section \<open>Resource errors\<close>

lemma load_entry_resources_error:
  assumes "read_manifest E validate f = Inr (Some mf)" "discover_resources E (parent f) = Inl e"
  shows "load_entry E validate f = Inl e"
  using assms by (simp add: load_entry_def build_sop_def bindE_def)

lemma resources_loop_append:
  "resources_loop E folder rs (xs @ ys)
     = bindE (resources_loop E folder rs xs) (\<lambda>rs'. resources_loop E folder rs' ys)"
proof (induction xs arbitrary: rs)
  case Nil
  show ?case by (simp add: bindE_def)
next
  case (Cons x xs)
  show ?case
    by (simp add: Cons.IH bindE_def split: sum.splits)
qed

lemma md_loop_append:
  "md_loop E rs (xs @ ys) = bindE (md_loop E rs xs) (\<lambda>rs'. md_loop E rs' ys)"
proof (induction xs arbitrary: rs)
  case Nil
  show ?case by (simp add: bindE_def)
next
  case (Cons x xs)
  show ?case
    by (simp add: Cons.IH bindE_def split: sum.splits)
qed

text \<open>
  Claim C3, as the code has it. An exception at one entry ends the loop over the
  entries: the resources collected so far are dropped and the entries after it are not
  visited. When resource resolution raises an \<open>OSError\<close>, discovery abandons the
  procedure and goes on with the next manifest, as it does without that manifest.
  Any other exception of the resource resolution leaves the discovery call.
\<close>

theorem resource_error_skips_procedure:
  "(resources_loop E folder rs before = Inr rs' \<longrightarrow> is_file E x = Inl e \<longrightarrow>
      resources_loop E folder rs (before @ x # after) = Inl e)
   \<and> (md_loop E rs before = Inr rs' \<longrightarrow> py_upper (path_name x) \<noteq> ''SOP.MD'' \<longrightarrow>
      resolve E x = Inl e \<longrightarrow> md_loop E rs (before @ x # after) = Inl e)
   \<and> (read_manifest E validate f = Inr (Some mf) \<longrightarrow>
      discover_resources E (parent f) = Inl (OSError msg) \<longrightarrow>
      discover_files E validate sops (pre @ f # rest) = discover_files E validate sops (pre @ rest))
   \<and> (read_manifest E validate f = Inr (Some mf) \<longrightarrow>
      discover_resources E (parent f) = Inl e \<longrightarrow> \<not> is_OSError e \<longrightarrow>
      discover_files E validate sops (f # rest) = Inl e)"
proof (intro conjI impI)
  assume "resources_loop E folder rs before = Inr rs'" "is_file E x = Inl e"
  then show "resources_loop E folder rs (before @ x # after) = Inl e"
    by (simp add: resources_loop_append bindE_def)
next
  assume "md_loop E rs before = Inr rs'" "py_upper (path_name x) \<noteq> ''SOP.MD''" "resolve E x = Inl e"
  then show "md_loop E rs (before @ x # after) = Inl e"
    by (simp add: md_loop_append bindE_def)
next
  assume "read_manifest E validate f = Inr (Some mf)"
    "discover_resources E (parent f) = Inl (OSError msg)"
  then have "load_entry E validate f = Inl (OSError msg)"
    by (rule load_entry_resources_error)
  then show "discover_files E validate sops (pre @ f # rest) = discover_files E validate sops (pre @ rest)"
    using discover_files_skip [of E validate f sops pre rest] by blast
next
  assume "read_manifest E validate f = Inr (Some mf)" "discover_resources E (parent f) = Inl e"
  then have "load_entry E validate f = Inl e"
    by (rule load_entry_resources_error)
  moreover assume "\<not> is_OSError e"
  ultimately show "discover_files E validate sops (f # rest) = Inl e"
    by (rule discover_files_raise)
qed

theorem resource_error_skips_procedure_witness:
  "resources_loop locked_env alpha_dir []
       ([alpha_dir @ [''resources'', ''schema.json'']] @ (alpha_dir @ [''resources'', ''locked'', ''b.txt'']) # [])
     = Inl (OSError ''Permission denied'')
   \<and> md_loop looped_env [] ([alpha_dir @ [''SOP.md'']] @ (alpha_dir @ [''FORMS.md'']) # [])
     = Inl (RuntimeError ''Symlink loop from /srv/sops/alpha/FORMS.md'')
   \<and> discover_files locked_env True [] ([] @ (alpha_dir @ [''SOP.md'']) # [beta_dir @ [''SOP.md'']])
     = discover_files locked_env True [] ([] @ [beta_dir @ [''SOP.md'']])
   \<and> discover_files locked_env True [] [beta_dir @ [''SOP.md'']] = Inr []
   \<and> discover_files looped_env True [] ((alpha_dir @ [''SOP.md'']) # [beta_dir @ [''SOP.md'']])
     = Inl (RuntimeError ''Symlink loop from /srv/sops/alpha/FORMS.md'')"
proof -
  let ?schema = "alpha_dir @ [''resources'', ''schema.json'']"
  let ?locked = "alpha_dir @ [''resources'', ''locked'', ''b.txt'']"
  let ?forms = "alpha_dir @ [''FORMS.md'']"
  let ?alpha = "alpha_dir @ [''SOP.md'']"
  let ?beta = "beta_dir @ [''SOP.md'']"
  let ?loop = "RuntimeError ''Symlink loop from /srv/sops/alpha/FORMS.md''"
  let ?mf = "\<lparr>mf_name = YStr ''alpha'', mf_description = YStr ''First'',
                mf_extra = [], mf_instructions = ''Do alpha.''\<rparr>"
  have h1: "resources_loop locked_env alpha_dir [] [?schema]
      = Inr [\<lparr>r_name = ''resources/schema.json'', r_path = ?schema, r_content = None\<rparr>]"
    by code_simp
  have h2: "is_file locked_env ?locked = Inl (OSError ''Permission denied'')"
    by code_simp
  have h3: "md_loop looped_env [] [?alpha] = Inr []"
    by code_simp
  have h4: "py_upper (path_name ?forms) \<noteq> ''SOP.MD''"
    by code_simp
  have h5: "resolve looped_env ?forms = Inl ?loop"
    by code_simp
  have h6: "read_manifest locked_env True ?alpha = Inr (Some ?mf)"
    by code_simp
  have h7: "discover_resources locked_env (parent ?alpha) = Inl (OSError ''Permission denied'')"
    by code_simp
  have h8: "read_manifest looped_env True ?alpha = Inr (Some ?mf)"
    by code_simp
  have h9: "discover_resources looped_env (parent ?alpha) = Inl ?loop"
    by code_simp
  have h10: "\<not> is_OSError ?loop"
    by (simp add: is_OSError_def)
  have v: "discover_files locked_env True [] [?beta] = Inr []"
    by code_simp
  note a = resource_error_skips_procedure [where E = locked_env and folder = alpha_dir
      and rs = "[]" and before = "[?schema]" and x = ?locked and after = "[]"
      and e = "OSError ''Permission denied''" and validate = True and f = ?alpha and mf = ?mf
      and msg = "''Permission denied''" and sops = "[]" and pre = "[]" and rest = "[?beta]"]
  note b = resource_error_skips_procedure [where E = looped_env and rs = "[]"
      and before = "[?alpha]" and x = ?forms and after = "[]" and e = ?loop and validate = True
      and f = ?alpha and mf = ?mf and sops = "[]" and rest = "[?beta]"]
  have 1: "resources_loop locked_env alpha_dir [] ([?schema] @ ?locked # [])
      = Inl (OSError ''Permission denied'')"
    using a h1 h2 by blast
  have 2: "md_loop looped_env [] ([?alpha] @ ?forms # []) = Inl ?loop"
    using b h3 h4 h5 by blast
  have 3: "discover_files locked_env True [] ([] @ ?alpha # [?beta])
     = discover_files locked_env True [] ([] @ [?beta])"
    using a h6 h7 by blast
  have 4: "discover_files looped_env True [] (?alpha # [?beta]) = Inl ?loop"
    using b h8 h9 h10 by blast
  from 1 2 3 v 4 show ?thesis by blast
qed

text \<open>
  Claim C3 as stated fails. Where \<open>is_file\<close> raises for one entry under
  \<open>resources\<close>, resource resolution for \<open>alpha\<close> raises and returns no resource,
  although the document \<open>FORMS.md\<close> and the entry \<open>resources/schema.json\<close> are sound.
  Where \<open>resolve\<close> raises \<open>RuntimeError\<close> for one document, the whole discovery call
  raises it.
\<close>

theorem resource_error_drops_siblings:
  "is_file locked_env (alpha_dir @ [''resources'', ''schema.json'']) = Inr True
   \<and> resolve locked_env (alpha_dir @ [''FORMS.md'']) = Inr (alpha_dir @ [''FORMS.md''])
   \<and> discover_resources locked_env alpha_dir = Inl (OSError ''Permission denied'')
   \<and> discover_resources looped_env alpha_dir
       = Inl (RuntimeError ''Symlink loop from /srv/sops/alpha/FORMS.md'')
   \<and> discover_sops looped_env [[''srv'', ''sops'']] True
       = Inl (RuntimeError ''Symlink loop from /srv/sops/alpha/FORMS.md'')"
  by code_simp


section \<open>Manifests without a name\<close>

text \<open>
  With validation, a manifest whose front matter is a dict without a name, or with an
  empty one, is skipped: the loop goes on as it does without that manifest.
\<close>

lemma missing_identifier_skipped:
  assumes "read_text E f = Inr content" "parse_sop_md E content = Inr (YMap fm, instructions)"
    and "\<not> truthy (case dict_get fm ''name'' of None \<Rightarrow> YNull | Some v \<Rightarrow> v)"
  shows "discover_files E True sops (pre @ f # rest) = discover_files E True sops (pre @ rest)"
proof -
  have "load_entry E True f = Inr None"
    using assms by (simp add: load_entry_def read_manifest_def bindE_def Let_def)
  then show ?thesis
    using discover_files_skip [of E True f sops pre rest] by blast
qed

text \<open>
  Without validation, the same manifest gets the name of its directory, and when the
  resources resolve, the look for the tool module returns and the directory resolves,
  the call of the constructor raises \<open>TypeError\<close>, which leaves the loop.
\<close>

lemma missing_identifier_unvalidated:
  assumes "read_text E f = Inr content" "parse_sop_md E content = Inr (YMap fm, instructions)"
    and "\<not> truthy (case dict_get fm ''name'' of None \<Rightarrow> YNull | Some v \<Rightarrow> v)"
    and "discover_resources E (parent f) = Inr resources"
    and "path_exists E (parent f @ [''tools'', ''toolset.py'']) = Inr has_toolset"
    and "resolve E (parent f) = Inr p"
  shows "read_manifest E False f
           = Inr (Some \<lparr>mf_name = YStr (path_name (parent f)),
                    mf_description = (case dict_get fm ''description'' of None \<Rightarrow> YStr [] | Some v \<Rightarrow> v),
                    mf_extra = filter (\<lambda>(k, v). k \<noteq> YStr ''name'' \<and> k \<noteq> YStr ''description'') fm,
                    mf_instructions = instructions\<rparr>)"
    and "discover_files E False sops (f # rest) = Inl TypeError"
proof -
  show m: "read_manifest E False f
           = Inr (Some \<lparr>mf_name = YStr (path_name (parent f)),
                    mf_description = (case dict_get fm ''description'' of None \<Rightarrow> YStr [] | Some v \<Rightarrow> v),
                    mf_extra = filter (\<lambda>(k, v). k \<noteq> YStr ''name'' \<and> k \<noteq> YStr ''description'') fm,
                    mf_instructions = instructions\<rparr>)"
    using assms(1-3) by (simp add: read_manifest_def bindE_def Let_def)
  have "load_entry E False f = Inl TypeError"
    using m assms(4-6)
    by (simp add: load_entry_def build_sop_def check_toolset_def SOP_with_has_toolset_def bindE_def)
  then show "discover_files E False sops (f # rest) = Inl TypeError"
    by simp
qed

text \<open>
  Claim C6. The claim: a manifest without a name is left out with validation, and
  without validation it gives one entry whose name is the name of its directory. On the
  directory of the two tests of the repository, whose manifest has a description and
  no name, discovery with validation returns the empty list, and discovery without
  validation raises the \<open>TypeError\<close> of the constructor call and returns no entry.
\<close>

theorem missing_identifier_unvalidated_raises:
  "read_text test_env (tmp_path @ [''test-sop'', ''SOP.md'']) = Inr test_sop_md
   \<and> parse_sop_md test_env test_sop_md
       = Inr (YMap [(YStr ''description'', YStr ''Missing name field'')], ''Content.'')
   \<and> read_manifest test_env False (tmp_path @ [''test-sop'', ''SOP.md''])
       = Inr (Some \<lparr>mf_name = YStr ''test-sop'', mf_description = YStr ''Missing name field'',
                mf_extra = [], mf_instructions = ''Content.''\<rparr>)
   \<and> discover_sops test_env [tmp_path] True = Inr []
   \<and> discover_sops test_env [tmp_path] False = Inl TypeError"
  by code_simp

end
